theory Spec2Isabelle
  imports Main "HOL-Library.AList"
begin

section \<open>The column store\<close>

text \<open>
  \<^verbatim>\<open>columns = defaultdict(list)\<close> and \<^verbatim>\<open>self.data_list = {}\<close> are Python
  dictionaries from a column name to the list of that column's cells. A Python
  dictionary keeps its keys in insertion order, and the order is what
  \<^verbatim>\<open>generate_csv\<close> writes as the header, so a store is an association list
  with distinct keys:
  \<^item> \<^verbatim>\<open>d.get(k, None)\<close> is \<^term>\<open>map_of d k\<close>;
  \<^item> \<^verbatim>\<open>d[k] = v\<close> is \<^term>\<open>AList.update k v d\<close>: an existing key keeps its
    place, a new key goes to the end;
  \<^item> \<^verbatim>\<open>del d[k]\<close> is \<^term>\<open>AList.delete k d\<close>.
  A cell is a string whose characters are code points below 256. The rows are the
  ones \<^verbatim>\<open>csv.DictReader\<close> yields for a file whose rows have as many cells
  as the header (a shorter or longer row would bring \<^verbatim>\<open>None\<close> in).
\<close>

type_synonym column_store = "(string \<times> string list) list"

type_synonym csv_row = "(string \<times> string) list"

definition truthy :: "string list option \<Rightarrow> bool" where
  \<comment> \<open>Python's truth value of what \<^verbatim>\<open>columns.get(k, None)\<close> returns.\<close>
  "truthy v = (case v of None \<Rightarrow> False | Some xs \<Rightarrow> xs \<noteq> [])"

definition getitem_default :: "column_store \<Rightarrow> string \<Rightarrow> string list \<times> column_store" where
  \<comment> \<open>\<^verbatim>\<open>columns[k]\<close> on a \<^verbatim>\<open>defaultdict(list)\<close>: a missing key is created
      with the empty list.\<close>
  "getitem_default columns k =
     (case map_of columns k of
        Some v \<Rightarrow> (v, columns)
      | None \<Rightarrow> ([], AList.update k [] columns))"

definition append_cell :: "column_store \<Rightarrow> string \<times> string \<Rightarrow> column_store" where
  \<comment> \<open>\<^verbatim>\<open>columns[k].append(v)\<close>\<close>
  "append_cell columns kv =
     (case kv of (k, v) \<Rightarrow>
        (case getitem_default columns k of (old, columns') \<Rightarrow>
           AList.update k (old @ [v]) columns'))"

definition read_columns :: "csv_row list \<Rightarrow> column_store" where
  \<comment> \<open>Lines 89 to 94: the two nested loops over the reader's rows.\<close>
  "read_columns rows = foldl (\<lambda>columns row. foldl append_cell columns row) [] rows"

section \<open>Renaming the columns\<close>

definition combine_euro_cents :: "column_store \<Rightarrow> column_store" where
  \<comment> \<open>Lines 96 to 99.\<close>
  "combine_euro_cents columns =
     (if truthy (map_of columns ''euro'') \<and> truthy (map_of columns ''cents'') then
        AList.delete ''cents'' (AList.delete ''euro''
          (AList.update ''amount''
             (map (\<lambda>(k, y). k @ ''.'' @ y)
                (zip (the (map_of columns ''euro'')) (the (map_of columns ''cents''))))
             columns))
      else columns)"

definition move_column :: "string \<Rightarrow> string \<Rightarrow> column_store \<Rightarrow> column_store" where
  \<comment> \<open>The block the source repeats four times:
      \<^verbatim>\<open>if columns.get(src, None): columns[dst] = columns.get(src, None); del columns[src]\<close>\<close>
  "move_column src dst columns =
     (if truthy (map_of columns src) then
        AList.delete src (AList.update dst (the (map_of columns src)) columns)
      else columns)"

definition rename_columns :: "column_store \<Rightarrow> column_store" where
  \<comment> \<open>Lines 96 to 115, in the source's order. Each block is an \<^verbatim>\<open>if\<close> of its
      own: none is an \<^verbatim>\<open>elif\<close>.\<close>
  "rename_columns columns =
     move_column ''amounts'' ''amount''
       (move_column ''type'' ''transaction''
          (move_column ''date_readable'' ''date''
             (move_column ''timestamp'' ''date''
                (combine_euro_cents columns))))"

section \<open>Parsing and printing dates\<close>

text \<open>
  \<^verbatim>\<open>datetime.strptime\<close> is the standard library's: it turns the format into a
  regular expression (compiled with \<^verbatim>\<open>IGNORECASE\<close>), matches it at the start
  of the value, refuses a value with text left over, converts the groups and builds
  the date, which refuses a day the month does not have. All four failures are a
  \<^verbatim>\<open>ValueError\<close>, here \<^term>\<open>None\<close>. The model covers the directives
  the program uses (\<^verbatim>\<open>%b %d %m %Y\<close>) in the C locale, which is the locale of
  a program that never calls \<^verbatim>\<open>setlocale\<close>.

  A regular expression is a function from the text to the list of its matches at the
  start of the text, each with the text that is left, in the order the backtracking
  matcher tries them.
\<close>

type_synonym regex = "string \<Rightarrow> (string \<times> string) list"

definition re_set :: "char set \<Rightarrow> regex" where
  \<comment> \<open>One character of a class.\<close>
  "re_set A s = (case s of [] \<Rightarrow> [] | c # r \<Rightarrow> if c \<in> A then [([c], r)] else [])"

definition re_seq :: "regex \<Rightarrow> regex \<Rightarrow> regex" where
  "re_seq p q s = concat (map (\<lambda>(a, r). map (\<lambda>(b, r'). (a @ b, r')) (q r)) (p s))"

definition re_alt :: "regex list \<Rightarrow> regex" where
  "re_alt ps s = concat (map (\<lambda>p. p s) ps)"

definition digit :: "char set" where
  \<comment> \<open>\<^verbatim>\<open>\d\<close> below code point 256.\<close>
  "digit = set ''0123456789''"

definition digit19 :: "char set" where
  "digit19 = set ''123456789''"

definition space :: "char set" where
  \<comment> \<open>\<^verbatim>\<open>\s\<close> below code point 256: tab, line feed, vertical tab, form feed,
      carriage return, the four separators 0x1C to 0x1F, the blank, NEL and the
      no-break space.\<close>
  "space = {CHR 0x09, CHR 0x0A, CHR 0x0B, CHR 0x0C, CHR 0x0D, CHR 0x1C, CHR 0x1D,
            CHR 0x1E, CHR 0x1F, CHR 0x20, CHR 0x85, CHR 0xA0}"

definition re_spaces :: regex where
  \<comment> \<open>\<^verbatim>\<open>\s+\<close>, greedy: the longest run first.\<close>
  "re_spaces s =
     map (\<lambda>n. (take n s, drop n s)) (rev [1 ..< Suc (length (takeWhile (\<lambda>c. c \<in> space) s))])"

definition re_d :: regex where
  \<comment> \<open>\<^verbatim>\<open>(?P<d>3[0-1]|[1-2]\d|0[1-9]|[1-9]| [1-9])\<close>\<close>
  "re_d = re_alt [re_seq (re_set {CHR ''3''}) (re_set (set ''01'')),
                  re_seq (re_set (set ''12'')) (re_set digit),
                  re_seq (re_set {CHR ''0''}) (re_set digit19),
                  re_set digit19,
                  re_seq (re_set {CHR '' ''}) (re_set digit19)]"

definition re_m :: regex where
  \<comment> \<open>\<^verbatim>\<open>(?P<m>1[0-2]|0[1-9]|[1-9])\<close>\<close>
  "re_m = re_alt [re_seq (re_set {CHR ''1''}) (re_set (set ''012'')),
                  re_seq (re_set {CHR ''0''}) (re_set digit19),
                  re_set digit19]"

definition re_Y :: regex where
  \<comment> \<open>\<^verbatim>\<open>(?P<Y>\d\d\d\d)\<close>\<close>
  "re_Y = re_seq (re_set digit) (re_seq (re_set digit) (re_seq (re_set digit) (re_set digit)))"

definition lower :: "char \<Rightarrow> char" where
  \<comment> \<open>Lower case of an ASCII letter; the month names have no other letters.\<close>
  "lower c =
     (case map_of (zip ''ABCDEFGHIJKLMNOPQRSTUVWXYZ'' ''abcdefghijklmnopqrstuvwxyz'') c of
        Some l \<Rightarrow> l
      | None \<Rightarrow> c)"

definition a_month :: "string list" where
  \<comment> \<open>\<^verbatim>\<open>locale_time.a_month\<close>: the month abbreviations, lower-cased, with an empty
      entry at index 0.\<close>
  "a_month = ['''', ''jan'', ''feb'', ''mar'', ''apr'', ''may'', ''jun'',
              ''jul'', ''aug'', ''sep'', ''oct'', ''nov'', ''dec'']"

definition re_word :: "string \<Rightarrow> regex" where
  \<comment> \<open>A literal word under \<^verbatim>\<open>IGNORECASE\<close>.\<close>
  "re_word w s =
     (if length w \<le> length s \<and> map lower (take (length w) s) = map lower w
      then [(take (length w) s, drop (length w) s)] else [])"

definition re_b :: regex where
  \<comment> \<open>\<^verbatim>\<open>(?P<b>jan|feb|...|dec)\<close>: the names sorted by length, longest first,
      which leaves these twelve in their order.\<close>
  "re_b = re_alt (map re_word (tl a_month))"

text \<open>
  The groups a match has found, as \<^verbatim>\<open>_strptime\<close> converts them:
  \<^verbatim>\<open>year = None; month = day = 1\<close> to start with.
\<close>

record found =
  f_year :: "nat option"
  f_month :: nat
  f_day :: nat

definition py_int :: "string \<Rightarrow> nat" where
  \<comment> \<open>\<^verbatim>\<open>int(text)\<close> on a group's text: digits, after at most a blank that
      \<^verbatim>\<open>int\<close> strips.\<close>
  "py_int text =
     foldl (\<lambda>n c. 10 * n + (of_char c - 48)) 0 (dropWhile (\<lambda>c. c \<in> space) text)"

fun index_of :: "'a list \<Rightarrow> 'a \<Rightarrow> nat" where
  \<comment> \<open>\<^verbatim>\<open>list.index\<close>, used on a name the expression has matched.\<close>
  "index_of [] x = 0"
| "index_of (y # ys) x = (if x = y then 0 else Suc (index_of ys x))"

datatype token = Dir_b | Dir_d | Dir_m | Dir_Y | Spaces | Lit char

definition directive :: "char \<Rightarrow> token option" where
  "directive c =
     (if c = CHR ''b'' then Some Dir_b
      else if c = CHR ''d'' then Some Dir_d
      else if c = CHR ''m'' then Some Dir_m
      else if c = CHR ''Y'' then Some Dir_Y
      else None)"

function pattern :: "string \<Rightarrow> token list option" where
  \<comment> \<open>\<^verbatim>\<open>TimeRE.pattern\<close>: a run of white space becomes \<^verbatim>\<open>\s+\<close>, a directive
      its group, any other character itself. A directive beyond the four is not
      modelled.\<close>
  "pattern [] = Some []"
| "pattern (c # fmt) =
     (if c = CHR ''%'' then
        (case fmt of
           [] \<Rightarrow> None
         | d # fmt' \<Rightarrow>
             (case directive d of
                None \<Rightarrow> None
              | Some t \<Rightarrow> map_option ((#) t) (pattern fmt')))
      else if c \<in> space then
        map_option ((#) Spaces) (pattern (dropWhile (\<lambda>c. c \<in> space) fmt))
      else map_option ((#) (Lit c)) (pattern fmt))"
  by pat_completeness auto
termination
  by (relation "measure length") (auto simp: le_imp_less_Suc length_dropWhile_le)

definition match_token :: "token \<Rightarrow> found \<times> string \<Rightarrow> (found \<times> string) list" where
  "match_token t fs =
     (case fs of (f, s) \<Rightarrow>
        (case t of
           Dir_b \<Rightarrow> map (\<lambda>(x, r). (f\<lparr>f_month := index_of a_month (map lower x)\<rparr>, r)) (re_b s)
         | Dir_d \<Rightarrow> map (\<lambda>(x, r). (f\<lparr>f_day := py_int x\<rparr>, r)) (re_d s)
         | Dir_m \<Rightarrow> map (\<lambda>(x, r). (f\<lparr>f_month := py_int x\<rparr>, r)) (re_m s)
         | Dir_Y \<Rightarrow> map (\<lambda>(x, r). (f\<lparr>f_year := Some (py_int x)\<rparr>, r)) (re_Y s)
         | Spaces \<Rightarrow> map (\<lambda>(x, r). (f, r)) (re_spaces s)
         | Lit c \<Rightarrow> map (\<lambda>(x, r). (f, r)) (re_word [c] s)))"

fun match_tokens :: "token list \<Rightarrow> found \<times> string \<Rightarrow> (found \<times> string) list" where
  "match_tokens [] fs = [fs]"
| "match_tokens (t # ts) fs = concat (map (match_tokens ts) (match_token t fs))"

record date =
  year :: nat
  month :: nat
  day :: nat

definition is_leap :: "nat \<Rightarrow> bool" where
  "is_leap y = (y mod 4 = 0 \<and> (y mod 100 \<noteq> 0 \<or> y mod 400 = 0))"

definition days_in_month :: "nat \<Rightarrow> nat \<Rightarrow> nat" where
  "days_in_month y m =
     (if m = 2 then (if is_leap y then 29 else 28)
      else if m = 4 \<or> m = 6 \<or> m = 9 \<or> m = 11 then 30 else 31)"

definition datetime_date :: "nat \<Rightarrow> nat \<Rightarrow> nat \<Rightarrow> date option" where
  \<comment> \<open>The date constructor's range checks: year 1 to 9999, month 1 to 12, a day
      of that month.\<close>
  "datetime_date y m d =
     (if 1 \<le> y \<and> y \<le> 9999 \<and> 1 \<le> m \<and> m \<le> 12 \<and> 1 \<le> d \<and> d \<le> days_in_month y m
      then Some \<lparr>year = y, month = m, day = d\<rparr> else None)"

definition strptime :: "string \<Rightarrow> string \<Rightarrow> date option" where
  "strptime data_string format =
     (case pattern format of
        None \<Rightarrow> None
      | Some ts \<Rightarrow>
          (case match_tokens ts (\<lparr>f_year = None, f_month = 1, f_day = 1\<rparr>, data_string) of
             [] \<Rightarrow> None
           | (f, rest) # _ \<Rightarrow>
               if rest \<noteq> [] then None
               else datetime_date
                      (case f_year f of
                         None \<Rightarrow> if f_month f = 2 \<and> f_day f = 29 then 1904 else 1900
                       | Some y \<Rightarrow> y)
                      (f_month f) (f_day f)))"

definition digit_char :: "nat \<Rightarrow> char" where
  "digit_char n = ''0123456789'' ! (n mod 10)"

fun decimal :: "nat \<Rightarrow> string" where
  \<comment> \<open>A number in decimal, with no padding.\<close>
  "decimal n = (if n < 10 then [digit_char n] else decimal (n div 10) @ [digit_char n])"

declare decimal.simps [simp del]

definition strftime :: "date \<Rightarrow> string" where
  \<comment> \<open>\<^verbatim>\<open>date_obj.strftime('%d-%m-%Y')\<close>, which the C library formats: day and
      month on two digits, and the year in decimal without padding, so that a year
      below 1000 has fewer than four digits (\<open>05-01-999\<close>).\<close>
  "strftime dt =
     [digit_char (day dt div 10), digit_char (day dt)] @ ''-'' @
     [digit_char (month dt div 10), digit_char (month dt)] @ ''-'' @
     decimal (year dt)"

section \<open>The parser of one file\<close>

definition date_formats :: "string list" where
  "date_formats = [''%b %d %Y'', ''%d %b %Y'', ''%d-%m-%Y'']"

definition try_format :: "string \<Rightarrow> string list \<Rightarrow> string \<Rightarrow> string list" where
  \<comment> \<open>The body of the inner loop, lines 120 to 124: an append on success, nothing
      on \<^verbatim>\<open>ValueError\<close>, and no \<^verbatim>\<open>break\<close>.\<close>
  "try_format row date_list fmt =
     (case strptime row fmt of
        Some date_obj \<Rightarrow> date_list @ [strftime date_obj]
      | None \<Rightarrow> date_list)"

definition unify_row :: "string list \<Rightarrow> string \<Rightarrow> string list" where
  \<comment> \<open>The body of the outer loop: every format is tried on the row, in the
      order of the tuple.\<close>
  "unify_row date_list row = foldl (try_format row) date_list date_formats"

definition unify_dates :: "column_store \<Rightarrow> column_store" where
  \<comment> \<open>Lines 117 to 125. \<^verbatim>\<open>columns['date']\<close> is the \<^verbatim>\<open>defaultdict\<close>'s item
      access, which creates the key.\<close>
  "unify_dates columns =
     (case getitem_default columns ''date'' of (rows, columns') \<Rightarrow>
        AList.update ''date'' (foldl unify_row [] rows) columns')"

definition merge_columns :: "column_store \<Rightarrow> column_store \<Rightarrow> column_store" where
  \<comment> \<open>Lines 127 to 132: the first store becomes the aggregate; later, a column
      extends the aggregate's column of its name, if there is one.\<close>
  "merge_columns data_list columns =
     (if data_list = [] then columns
      else foldl (\<lambda>dl (i, j).
                    case map_of dl i of
                      Some old \<Rightarrow> AList.update i (old @ j) dl
                    | None \<Rightarrow> dl)
             data_list columns)"

definition parse_columns :: "csv_row list \<Rightarrow> column_store" where
  \<comment> \<open>The store of one file, lines 89 to 125, from the rows the reader yields.\<close>
  "parse_columns rows = unify_dates (rename_columns (read_columns rows))"

text \<open>
  The files are a parameter: the rows \<^verbatim>\<open>csv.DictReader\<close> yields for a name, or
  nothing when \<^verbatim>\<open>open\<close> fails. A call either returns or raises, and
  \<^verbatim>\<open>self.data_list\<close> is what it is at that moment.
\<close>

type_synonym file_system = "string \<Rightarrow> csv_row list option"

datatype error =
    CannotParse  \<comment> \<open>\<^verbatim>\<open>Exception('Error. Cannot parse this type of file.')\<close>\<close>
  | OSError      \<comment> \<open>\<^verbatim>\<open>open(filename, 'r')\<close> failed\<close>

datatype outcome = Returned | Raised error

definition csv_parser :: "file_system \<Rightarrow> string \<Rightarrow> column_store \<Rightarrow> outcome \<times> column_store" where
  "csv_parser fs filename data_list =
     (case fs filename of
        None \<Rightarrow> (Raised OSError, data_list)
      | Some rows \<Rightarrow> (Returned, merge_columns data_list (parse_columns rows)))"

section \<open>Dispatch and the worker\<close>

definition endswith :: "string \<Rightarrow> string \<Rightarrow> bool" where
  \<comment> \<open>\<^verbatim>\<open>str.endswith\<close>\<close>
  "endswith s suffix =
     (length suffix \<le> length s \<and> drop (length s - length suffix) s = suffix)"

definition file_parser_factory_method ::
  "file_system \<Rightarrow> string \<Rightarrow> column_store \<Rightarrow> outcome \<times> column_store" where
  "file_parser_factory_method fs filename data_list =
     (if endswith filename ''.csv'' then csv_parser fs filename data_list
      else if endswith filename ''.xml'' then (Returned, data_list)
      else if endswith filename ''.json'' then (Returned, data_list)
      else (Raised CannotParse, data_list))"

fun process_queued_files ::
  "file_system \<Rightarrow> string list \<Rightarrow> column_store \<Rightarrow> outcome \<times> string list \<times> column_store" where
  \<comment> \<open>One worker alone on the queue: it takes the files one by one until the queue
      is empty, and an exception of the dispatch ends it with the rest of the
      queue left. The result is the outcome, the queue and the aggregate.\<close>
  "process_queued_files fs [] data_list = (Returned, [], data_list)"
| "process_queued_files fs (filename # file_queue) data_list =
     (case file_parser_factory_method fs filename data_list of
        (Raised e, data_list') \<Rightarrow> (Raised e, file_queue, data_list')
      | (Returned, data_list') \<Rightarrow> process_queued_files fs file_queue data_list')"

section \<open>The unified file\<close>

definition next_or_fill :: "'a list \<Rightarrow> 'a option" where
  \<comment> \<open>The next value of an iterator, or the fill value \<^verbatim>\<open>None\<close> once it is
      exhausted.\<close>
  "next_or_fill xs = (case xs of [] \<Rightarrow> None | x # _ \<Rightarrow> Some x)"

function zip_longest :: "'a list list \<Rightarrow> 'a option list list" where
  \<comment> \<open>\<^verbatim>\<open>itertools.zip_longest\<close>: a tuple per round, until every iterator is
      exhausted.\<close>
  "zip_longest xss =
     (if list_all (\<lambda>xs. xs = []) xss then []
      else map next_or_fill xss # zip_longest (map tl xss))"
  by pat_completeness auto
termination
proof (relation "measure (\<lambda>xss. sum_list (map length xss))")
  show "wf (measure (\<lambda>xss::'a list list. sum_list (map length xss)))"
    by simp
next
  fix xss :: "'a list list"
  assume "\<not> list_all (\<lambda>xs. xs = []) xss"
  then have "sum_list (map length (map tl xss)) < sum_list (map length xss)"
  proof (induction xss)
    case Nil
    then show ?case by simp
  next
    case (Cons xs xss)
    have le: "sum_list (map length (map tl yss)) \<le> sum_list (map length yss)"
      for yss :: "'a list list"
      by (induction yss) (auto simp: add_mono)
    show ?case
    proof (cases "xs = []")
      case True
      with Cons show ?thesis by simp
    next
      case False
      then have "length (tl xs) < length xs" by simp
      with le [of xss] show ?thesis by simp
    qed
  qed
  then show "(map tl xss, xss) \<in> measure (\<lambda>xss. sum_list (map length xss))"
    by simp
qed

declare zip_longest.simps [simp del]

definition csv_field :: "string option \<Rightarrow> string" where
  \<comment> \<open>\<^verbatim>\<open>csv.writer\<close> writes \<^verbatim>\<open>None\<close> as the empty field.\<close>
  "csv_field v = (case v of None \<Rightarrow> [] | Some s \<Rightarrow> s)"

definition generate_csv :: "column_store \<Rightarrow> string list list" where
  \<comment> \<open>The rows handed to \<^verbatim>\<open>csvwriter.writerow\<close>, the header first; how the
      writer quotes a field is not modelled.\<close>
  "generate_csv data_list =
     (let keys = map fst data_list;
          csvrows = zip_longest (map (\<lambda>k. the (map_of data_list k)) keys)
      in keys # map (map csv_field) csvrows)"

section \<open>Facts about the store operations\<close>

lemma map_of_move_column:
  "src \<noteq> dst \<Longrightarrow> map_of (move_column src dst columns) k =
     (if truthy (map_of columns src)
      then (if k = src then None else if k = dst then map_of columns src else map_of columns k)
      else map_of columns k)"
  by (auto simp: move_column_def truthy_def delete_conv' update_conv' split: option.splits)

lemma map_of_combine_euro_cents:
  "map_of (combine_euro_cents columns) k =
     (if truthy (map_of columns ''euro'') \<and> truthy (map_of columns ''cents'')
      then (if k = ''euro'' \<or> k = ''cents'' then None
            else if k = ''amount''
              then Some (map (\<lambda>(e, c). e @ ''.'' @ c)
                     (zip (the (map_of columns ''euro'')) (the (map_of columns ''cents''))))
            else map_of columns k)
      else map_of columns k)"
  by (auto simp: combine_euro_cents_def delete_conv' update_conv')

lemma distinct_move_column:
  "distinct (map fst columns) \<Longrightarrow> distinct (map fst (move_column src dst columns))"
  by (simp add: move_column_def distinct_delete distinct_update)

lemma distinct_combine_euro_cents:
  "distinct (map fst columns) \<Longrightarrow> distinct (map fst (combine_euro_cents columns))"
  by (simp add: combine_euro_cents_def distinct_delete distinct_update)

lemma distinct_rename_columns:
  "distinct (map fst columns) \<Longrightarrow> distinct (map fst (rename_columns columns))"
  by (simp add: rename_columns_def distinct_move_column distinct_combine_euro_cents)

lemma distinct_append_cell:
  "distinct (map fst columns) \<Longrightarrow> distinct (map fst (append_cell columns kv))"
  by (cases kv) (simp add: append_cell_def getitem_default_def distinct_update split: option.splits)

lemma distinct_foldl_append_cell:
  "distinct (map fst columns) \<Longrightarrow> distinct (map fst (foldl append_cell columns row))"
  by (induction row arbitrary: columns) (simp_all add: distinct_append_cell)

lemma distinct_read_rows:
  "distinct (map fst columns) \<Longrightarrow>
   distinct (map fst (foldl (\<lambda>columns row. foldl append_cell columns row) columns rows))"
  by (induction rows arbitrary: columns) (simp_all add: distinct_foldl_append_cell)

lemma distinct_read_columns: "distinct (map fst (read_columns rows))"
  by (simp add: read_columns_def distinct_read_rows)

lemma distinct_unify_dates:
  "distinct (map fst columns) \<Longrightarrow> distinct (map fst (unify_dates columns))"
  by (simp add: unify_dates_def getitem_default_def distinct_update split: option.splits)

lemma distinct_parse_columns: "distinct (map fst (parse_columns rows))"
  by (simp add: parse_columns_def distinct_unify_dates distinct_rename_columns distinct_read_columns)

lemma date_in_unify_dates: "''date'' \<in> fst ` set (unify_dates columns)"
  by (simp add: unify_dates_def getitem_default_def dom_update split: option.splits)

lemma keys_extend: "map fst (case map_of dl i of Some old \<Rightarrow> AList.update i (old @ j) dl | None \<Rightarrow> dl) = map fst dl"
  by (auto simp: update_keys map_of_eq_None_iff split: option.splits dest: map_of_SomeD) 

lemma keys_foldl_extend:
  "map fst (foldl (\<lambda>dl (i, j). case map_of dl i of Some old \<Rightarrow> AList.update i (old @ j) dl | None \<Rightarrow> dl) data_list columns) = map fst data_list"
  by (induction columns arbitrary: data_list) (auto simp: keys_extend)

lemma map_of_foldl_extend:
  "distinct (map fst columns) \<Longrightarrow>
   map_of (foldl (\<lambda>dl (i, j). case map_of dl i of Some old \<Rightarrow> AList.update i (old @ j) dl | None \<Rightarrow> dl) data_list columns) k =
     (case map_of data_list k of None \<Rightarrow> None
      | Some old \<Rightarrow> Some (old @ (case map_of columns k of None \<Rightarrow> [] | Some new \<Rightarrow> new)))"
proof (induction columns arbitrary: data_list)
  case Nil
  then show ?case by (simp split: option.splits)
next
  case (Cons ij columns)
  obtain i j where ij: "ij = (i, j)" by (cases ij)
  from Cons.prems ij have notin: "map_of columns i = None" and dist: "distinct (map fst columns)"
    by (auto simp: map_of_eq_None_iff)
  show ?case
    using notin by (simp add: ij Cons.IH [OF dist] update_conv' split: option.splits)
qed

lemma endswith_csv_xml: "endswith s ''.xml'' \<Longrightarrow> \<not> endswith s ''.csv''"
  by (auto simp: endswith_def)

lemma endswith_csv_json: "endswith s ''.json'' \<Longrightarrow> \<not> endswith s ''.csv''"
proof
  assume j: "endswith s ''.json''" and c: "endswith s ''.csv''"
  from j have 1: "5 \<le> length s" "drop (length s - 5) s = ''.json''"
    by (simp_all add: endswith_def eval_nat_numeral)
  from c have 2: "drop (length s - 4) s = ''.csv''"
    by (simp add: endswith_def eval_nat_numeral)
  from 1(1) have "length s - 4 = 1 + (length s - 5)"
    by arith
  then have "drop (length s - 4) s = drop 1 (drop (length s - 5) s)"
    by (simp only: drop_drop)
  with 1(2) 2 show False by simp
qed

lemma distinct_merge_columns:
  "distinct (map fst data_list) \<Longrightarrow> distinct (map fst columns) \<Longrightarrow>
   distinct (map fst (merge_columns data_list columns))"
  by (cases "data_list = []") (simp_all add: merge_columns_def keys_foldl_extend)

lemma distinct_file_parser_factory_method:
  "distinct (map fst data_list) \<Longrightarrow>
   distinct (map fst (snd (file_parser_factory_method fs filename data_list)))"
  by (simp add: file_parser_factory_method_def csv_parser_def distinct_merge_columns
        distinct_parse_columns split: option.splits)

lemma distinct_process_queued_files:
  "distinct (map fst data_list) \<Longrightarrow>
   distinct (map fst (snd (snd (process_queued_files fs file_queue data_list))))"
proof (induction file_queue arbitrary: data_list)
  case Nil
  then show ?case by simp
next
  case (Cons filename file_queue)
  from distinct_file_parser_factory_method [OF Cons.prems, of fs filename]
  show ?case
    by (cases "file_parser_factory_method fs filename data_list")
       (auto simp: Cons.IH split: outcome.splits)
qed

section \<open>Facts about the date formats\<close>

text \<open>
  No value parses under two of the three formats: the first starts with a letter, the
  other two with a digit or a blank, and after the day the second wants white space
  where the third wants a dash.
\<close>

lemma pattern_b_d_Y: "pattern ''%b %d %Y'' = Some [Dir_b, Spaces, Dir_d, Spaces, Dir_Y]"
  by (simp add: directive_def space_def)

lemma pattern_d_b_Y: "pattern ''%d %b %Y'' = Some [Dir_d, Spaces, Dir_b, Spaces, Dir_Y]"
  by (simp add: directive_def space_def)

lemma pattern_d_m_Y: "pattern ''%d-%m-%Y'' = Some [Dir_d, Lit CHR ''-'', Dir_m, Lit CHR ''-'', Dir_Y]"
  by (simp add: directive_def space_def)

lemma re_d_shape:
  "(x, r) \<in> set (re_d s) \<Longrightarrow>
     (\<exists>c. c \<in> digit19 \<and> s = c # r) \<or> (\<exists>c1 c2. c2 \<in> digit \<and> s = c1 # c2 # r)"
  by (auto simp: re_d_def re_alt_def re_seq_def re_set_def digit_def digit19_def
           split: list.splits if_splits)

lemma re_d_first:
  "(x, r) \<in> set (re_d s) \<Longrightarrow> \<exists>c t. s = c # t \<and> c \<in> set '' 0123456789''"
  by (auto simp: re_d_def re_alt_def re_seq_def re_set_def digit_def digit19_def
           split: list.splits if_splits)

lemma lower_non_upper:
  assumes "c \<notin> set ''ABCDEFGHIJKLMNOPQRSTUVWXYZ''"
  shows "lower c = c"
proof -
  have "length ''ABCDEFGHIJKLMNOPQRSTUVWXYZ'' = length ''abcdefghijklmnopqrstuvwxyz''"
    by simp
  from map_of_zip_is_None [OF this, of c] assms
  have "map_of (zip ''ABCDEFGHIJKLMNOPQRSTUVWXYZ'' ''abcdefghijklmnopqrstuvwxyz'') c = None"
    by blast
  then show ?thesis
    by (simp only: lower_def option.case)
qed

lemma lower_upper:
  assumes "c \<in> set ''ABCDEFGHIJKLMNOPQRSTUVWXYZ''"
  shows "lower c \<in> set ''abcdefghijklmnopqrstuvwxyz''"
proof -
  have "lower x \<in> set ''abcdefghijklmnopqrstuvwxyz''"
    if "x \<in> set ''ABCDEFGHIJKLMNOPQRSTUVWXYZ''" for x
    using that by (elim disjE | simp add: lower_def)+
  then show ?thesis using assms by blast
qed

lemma lower_not_sep: "lower c \<notin> set '' -0123456789'' \<or> lower c = c"
proof (cases "c \<in> set ''ABCDEFGHIJKLMNOPQRSTUVWXYZ''")
  case True
  from lower_upper [OF this] show ?thesis by auto
next
  case False
  from lower_non_upper [OF this] show ?thesis by blast
qed

lemma lower_month_names: "map (map lower) (tl a_month) = tl a_month"
  by (simp add: a_month_def lower_def)

lemma re_word_first:
  "re_word (a # w) s \<noteq> [] \<Longrightarrow> \<exists>c t. s = c # t \<and> lower c = lower a"
  by (cases s) (simp_all add: re_word_def split: if_splits)

lemma re_b_first:
  assumes "re_b s \<noteq> []"
  shows "\<exists>c t. s = c # t \<and> lower c \<in> set ''jfmasond''"
proof -
  from assms obtain w where w: "w \<in> set (tl a_month)" and ne: "re_word w s \<noteq> []"
    by (auto simp: re_b_def re_alt_def)
  from w obtain a v where av: "w = a # v" and a: "a \<in> set ''jfmasond''"
    by (auto simp: a_month_def)
  from a have "lower a = a"
    by (intro lower_non_upper) auto
  with re_word_first [of a v s] ne av a show ?thesis
    by auto
qed

lemma re_spaces_first: "re_spaces s \<noteq> [] \<Longrightarrow> \<exists>c t. s = c # t \<and> c \<in> space"
  by (cases s) (simp_all add: re_spaces_def split: if_splits)

lemma re_dash_first:
  assumes "re_word ''-'' s \<noteq> []"
  shows "\<exists>t. s = CHR ''-'' # t"
proof -
  from re_word_first [OF assms] obtain c t where s: "s = c # t" and l: "lower c = lower CHR ''-''"
    by blast
  have "lower CHR ''-'' = CHR ''-''"
    by (intro lower_non_upper) simp
  with l lower_not_sep [of c] have "c = CHR ''-''" by auto
  with s show ?thesis by simp
qed

lemma strptime_matches:
  "strptime row fmt \<noteq> None \<Longrightarrow>
   \<exists>ts. pattern fmt = Some ts \<and>
        match_tokens ts (\<lparr>f_year = None, f_month = 1, f_day = 1\<rparr>, row) \<noteq> []"
  by (auto simp: strptime_def split: option.splits list.splits)

lemma in_set_not_Nil: "x \<in> set xs \<Longrightarrow> xs \<noteq> []"
  by auto

lemma starts_b: "match_tokens (Dir_b # ts) (f, s) \<noteq> [] \<Longrightarrow> re_b s \<noteq> []"
  by (auto simp: match_token_def)

lemma starts_d_spaces:
  "match_tokens (Dir_d # Spaces # ts) (f, s) \<noteq> [] \<Longrightarrow>
   \<exists>x r. (x, r) \<in> set (re_d s) \<and> re_spaces r \<noteq> []"
  by (auto simp: match_token_def dest: in_set_not_Nil)

lemma starts_d_dash:
  "match_tokens (Dir_d # Lit CHR ''-'' # ts) (f, s) \<noteq> [] \<Longrightarrow>
   \<exists>x r. (x, r) \<in> set (re_d s) \<and> re_word ''-'' r \<noteq> []"
  by (auto simp: match_token_def dest: in_set_not_Nil)

lemma b_excludes_d:
  assumes "re_b s \<noteq> []" and "(x, r) \<in> set (re_d s)"
  shows False
proof -
  from re_b_first [OF assms(1)] obtain c t where s: "s = c # t" and c: "lower c \<in> set ''jfmasond''"
    by blast
  from re_d_first [OF assms(2)] s have d: "c \<in> set '' 0123456789''"
    by auto
  then have "c \<notin> set ''ABCDEFGHIJKLMNOPQRSTUVWXYZ''" by auto
  then have "lower c = c" by (rule lower_non_upper)
  with c d show False by auto
qed

lemma spaces_excludes_dash:
  assumes "(x, r) \<in> set (re_d s)" and "re_spaces r \<noteq> []"
    and "(x', r') \<in> set (re_d s)" and "re_word ''-'' r' \<noteq> []"
  shows False
proof -
  from re_spaces_first [OF assms(2)] obtain c t where r: "r = c # t" and c: "c \<in> space"
    by blast
  from re_dash_first [OF assms(4)] obtain t' where r': "r' = CHR ''-'' # t'"
    by blast
  have nd: "c \<notin> digit" using c by (auto simp: digit_def space_def)
  have dash: "CHR ''-'' \<notin> digit" "CHR ''-'' \<notin> space" by (simp_all add: digit_def space_def)
  from re_d_shape [OF assms(1)] re_d_shape [OF assms(3)] r r' c nd dash
  show False by auto
qed

lemma matches_b_d_Y:
  "strptime row ''%b %d %Y'' \<noteq> None \<Longrightarrow> re_b row \<noteq> []"
  using strptime_matches [of row "''%b %d %Y''"]
  by (auto simp only: pattern_b_d_Y option.inject dest: starts_b)

lemma matches_d_b_Y:
  assumes "strptime row ''%d %b %Y'' \<noteq> None"
  shows "\<exists>x r. (x, r) \<in> set (re_d row) \<and> re_spaces r \<noteq> []"
proof -
  from strptime_matches [OF assms]
  have "match_tokens [Dir_d, Spaces, Dir_b, Spaces, Dir_Y]
          (\<lparr>f_year = None, f_month = 1, f_day = 1\<rparr>, row) \<noteq> []"
    by (auto simp only: pattern_d_b_Y option.inject)
  then show ?thesis by (rule starts_d_spaces)
qed

lemma matches_d_m_Y:
  assumes "strptime row ''%d-%m-%Y'' \<noteq> None"
  shows "\<exists>x r. (x, r) \<in> set (re_d row) \<and> re_word ''-'' r \<noteq> []"
proof -
  from strptime_matches [OF assms]
  have "match_tokens [Dir_d, Lit CHR ''-'', Dir_m, Lit CHR ''-'', Dir_Y]
          (\<lparr>f_year = None, f_month = 1, f_day = 1\<rparr>, row) \<noteq> []"
    by (auto simp only: pattern_d_m_Y option.inject)
  then show ?thesis by (rule starts_d_dash)
qed

lemma b_d_Y_excludes:
  assumes "strptime row ''%b %d %Y'' \<noteq> None"
  shows "strptime row ''%d %b %Y'' = None \<and> strptime row ''%d-%m-%Y'' = None"
  using matches_b_d_Y [OF assms] matches_d_b_Y [of row] matches_d_m_Y [of row]
    b_excludes_d [of row]
  by blast

lemma d_b_Y_excludes:
  assumes "strptime row ''%d %b %Y'' \<noteq> None"
  shows "strptime row ''%d-%m-%Y'' = None"
  using matches_d_b_Y [OF assms] matches_d_m_Y [of row] spaces_excludes_dash [of _ _ row]
  by blast

lemma unify_row_eq:
  "unify_row date_list row =
     date_list @
     (case find (\<lambda>fmt. strptime row fmt \<noteq> None) date_formats of
        None \<Rightarrow> []
      | Some fmt \<Rightarrow> [strftime (the (strptime row fmt))])"
  using b_d_Y_excludes [of row] d_b_Y_excludes [of row]
  by (auto simp: unify_row_def date_formats_def try_format_def split: option.splits)

lemma foldl_unify_row:
  "foldl unify_row date_list rows =
     date_list @ concat (map (unify_row []) rows)"
proof (induction rows arbitrary: date_list)
  case Nil
  then show ?case by simp
next
  case (Cons row rows)
  have "unify_row date_list row = date_list @ unify_row [] row"
    by (simp add: unify_row_eq)
  then show ?case by (simp add: Cons.IH)
qed

section \<open>What a format parses, and what is printed\<close>

text \<open>
  A value that a format parses is made of the pieces of the format, and the date is
  what \<^verbatim>\<open>int\<close> reads from the day, month and year pieces (the month from its
  name). The printed entry read back gives the date's day, month and year.
\<close>

lemma re_set_sound:
  "(x, r) \<in> set (re_set A s) \<Longrightarrow> \<exists>c. c \<in> A \<and> x = [c] \<and> s = c # r"
  by (auto simp: re_set_def split: list.splits if_splits)

lemma re_d_sound:
  "(x, r) \<in> set (re_d s) \<Longrightarrow> s = x @ r \<and> x \<noteq> [] \<and> set x \<subseteq> insert CHR '' '' digit"
  by (auto simp: re_d_def re_alt_def re_seq_def digit_def digit19_def dest!: re_set_sound)

lemma re_m_sound:
  "(x, r) \<in> set (re_m s) \<Longrightarrow> s = x @ r \<and> x \<noteq> [] \<and> set x \<subseteq> digit"
  by (auto simp: re_m_def re_alt_def re_seq_def digit_def digit19_def dest!: re_set_sound)

lemma re_Y_sound:
  "(x, r) \<in> set (re_Y s) \<Longrightarrow> s = x @ r \<and> length x = 4 \<and> set x \<subseteq> digit"
  by (auto simp: re_Y_def re_seq_def dest!: re_set_sound)

lemma take_takeWhile:
  "n \<le> length (takeWhile P s) \<Longrightarrow> take n s = take n (takeWhile P s)"
proof -
  assume n: "n \<le> length (takeWhile P s)"
  have "take n s = take n (takeWhile P s @ dropWhile P s)" by simp
  also have "\<dots> = take n (takeWhile P s)" using n by (simp only: take_append) simp
  finally show ?thesis .
qed

lemma re_spaces_sound:
  assumes "(x, r) \<in> set (re_spaces s)"
  shows "s = x @ r \<and> x \<noteq> [] \<and> set x \<subseteq> space"
proof -
  from assms obtain n where n: "1 \<le> n" "n \<le> length (takeWhile (\<lambda>c. c \<in> space) s)"
    and x: "x = take n s" and r: "r = drop n s"
    by (auto simp: re_spaces_def)
  from n have "n \<le> length s"
    using length_takeWhile_le [of "\<lambda>c. c \<in> space" s] by simp
  with n x have ne: "x \<noteq> []" by auto
  from x take_takeWhile [OF n(2)] have "set x \<subseteq> set (takeWhile (\<lambda>c. c \<in> space) s)"
    by (simp add: set_take_subset)
  then have "set x \<subseteq> space"
    by (auto dest: set_takeWhileD)
  with x r ne show ?thesis by simp
qed

lemma re_word_sound:
  "(x, r) \<in> set (re_word w s) \<Longrightarrow> s = x @ r \<and> map lower x = map lower w"
  by (auto simp: re_word_def split: if_splits)

lemma re_b_sound:
  assumes "(x, r) \<in> set (re_b s)"
  shows "s = x @ r \<and> map lower x \<in> set (tl a_month)"
proof -
  from assms obtain w where w: "w \<in> set (tl a_month)" and m: "(x, r) \<in> set (re_word w s)"
    by (auto simp: re_b_def re_alt_def)
  from w have "map lower w \<in> set (map (map lower) (tl a_month))" by simp
  then have "map lower w \<in> set (tl a_month)" by (simp only: lower_month_names)
  moreover from w have "map lower w = w"
    by (auto simp: a_month_def lower_def)
  ultimately show ?thesis using re_word_sound [OF m] by simp
qed

lemma re_dash_sound:
  assumes "(x, r) \<in> set (re_word ''-'' s)"
  shows "s = CHR ''-'' # r"
proof -
  from assms have ne: "re_word ''-'' s \<noteq> []" by auto
  from re_dash_first [OF ne] obtain t where s: "s = CHR ''-'' # t" by blast
  with assms show ?thesis by (simp add: re_word_def split: if_splits)
qed

lemma mem_match_tokens_Cons:
  "(f', r') \<in> set (match_tokens (t # ts) fs) \<longleftrightarrow>
     (\<exists>fs1 \<in> set (match_token t fs). (f', r') \<in> set (match_tokens ts fs1))"
  by auto

lemma mem_match_Dir_d:
  "(f1, s1) \<in> set (match_token Dir_d (f, s)) \<longleftrightarrow>
     (\<exists>x. (x, s1) \<in> set (re_d s) \<and> f1 = f\<lparr>f_day := py_int x\<rparr>)"
  by (auto simp: match_token_def)

lemma mem_match_Dir_m:
  "(f1, s1) \<in> set (match_token Dir_m (f, s)) \<longleftrightarrow>
     (\<exists>x. (x, s1) \<in> set (re_m s) \<and> f1 = f\<lparr>f_month := py_int x\<rparr>)"
  by (auto simp: match_token_def)

lemma mem_match_Dir_Y:
  "(f1, s1) \<in> set (match_token Dir_Y (f, s)) \<longleftrightarrow>
     (\<exists>x. (x, s1) \<in> set (re_Y s) \<and> f1 = f\<lparr>f_year := Some (py_int x)\<rparr>)"
  by (auto simp: match_token_def)

lemma mem_match_Dir_b:
  "(f1, s1) \<in> set (match_token Dir_b (f, s)) \<longleftrightarrow>
     (\<exists>x. (x, s1) \<in> set (re_b s) \<and> f1 = f\<lparr>f_month := index_of a_month (map lower x)\<rparr>)"
  by (auto simp: match_token_def)

lemma mem_match_Spaces:
  "(f1, s1) \<in> set (match_token Spaces (f, s)) \<longleftrightarrow>
     (\<exists>x. (x, s1) \<in> set (re_spaces s) \<and> f1 = f)"
  by (auto simp: match_token_def)

lemma mem_match_Lit:
  "(f1, s1) \<in> set (match_token (Lit c) (f, s)) \<longleftrightarrow>
     (\<exists>x. (x, s1) \<in> set (re_word [c] s) \<and> f1 = f)"
  by (auto simp: match_token_def)

lemmas mem_match =
  mem_match_tokens_Cons mem_match_Dir_d mem_match_Dir_m mem_match_Dir_Y mem_match_Dir_b
  mem_match_Spaces mem_match_Lit

lemma sound_d_m_Y:
  assumes "(f, r) \<in> set (match_tokens [Dir_d, Lit CHR ''-'', Dir_m, Lit CHR ''-'', Dir_Y] (f0, s))"
  shows "\<exists>xd xm xy. s = xd @ ''-'' @ xm @ ''-'' @ xy @ r \<and>
           f = f0\<lparr>f_day := py_int xd, f_month := py_int xm, f_year := Some (py_int xy)\<rparr> \<and>
           set xd \<subseteq> insert CHR '' '' digit \<and> set xm \<subseteq> digit \<and>
           set xy \<subseteq> digit \<and> length xy = 4"
proof -
  from assms obtain xd s1 x1 s2 xm s3 x2 s4 xy where
    d: "(xd, s1) \<in> set (re_d s)" and l1: "(x1, s2) \<in> set (re_word ''-'' s1)" and
    m: "(xm, s3) \<in> set (re_m s2)" and l2: "(x2, s4) \<in> set (re_word ''-'' s3)" and
    y: "(xy, r) \<in> set (re_Y s4)" and
    f: "f = f0\<lparr>f_day := py_int xd, f_month := py_int xm, f_year := Some (py_int xy)\<rparr>"
    by (auto simp: mem_match)
  from re_d_sound [OF d] re_dash_sound [OF l1] re_m_sound [OF m] re_dash_sound [OF l2]
    re_Y_sound [OF y] f
  show ?thesis by auto
qed

lemma sound_d_b_Y:
  assumes "(f, r) \<in> set (match_tokens [Dir_d, Spaces, Dir_b, Spaces, Dir_Y] (f0, s))"
  shows "\<exists>xd w1 xb w2 xy. s = xd @ w1 @ xb @ w2 @ xy @ r \<and>
           f = f0\<lparr>f_day := py_int xd, f_month := index_of a_month (map lower xb),
                  f_year := Some (py_int xy)\<rparr> \<and>
           set xd \<subseteq> insert CHR '' '' digit \<and>
           w1 \<noteq> [] \<and> set w1 \<subseteq> space \<and> map lower xb \<in> set (tl a_month) \<and>
           w2 \<noteq> [] \<and> set w2 \<subseteq> space \<and> set xy \<subseteq> digit \<and> length xy = 4"
proof -
  from assms obtain xd s1 w1 s2 xb s3 w2 s4 xy where
    d: "(xd, s1) \<in> set (re_d s)" and l1: "(w1, s2) \<in> set (re_spaces s1)" and
    b: "(xb, s3) \<in> set (re_b s2)" and l2: "(w2, s4) \<in> set (re_spaces s3)" and
    y: "(xy, r) \<in> set (re_Y s4)" and
    f: "f = f0\<lparr>f_day := py_int xd, f_month := index_of a_month (map lower xb),
                 f_year := Some (py_int xy)\<rparr>"
    by (auto simp: mem_match)
  from re_d_sound [OF d] re_spaces_sound [OF l1] re_b_sound [OF b] re_spaces_sound [OF l2]
    re_Y_sound [OF y] f
  show ?thesis
    by (intro exI [of _ xd] exI [of _ w1] exI [of _ xb] exI [of _ w2] exI [of _ xy]) simp
qed

lemma sound_b_d_Y:
  assumes "(f, r) \<in> set (match_tokens [Dir_b, Spaces, Dir_d, Spaces, Dir_Y] (f0, s))"
  shows "\<exists>xb w1 xd w2 xy. s = xb @ w1 @ xd @ w2 @ xy @ r \<and>
           f = f0\<lparr>f_day := py_int xd, f_month := index_of a_month (map lower xb),
                  f_year := Some (py_int xy)\<rparr> \<and>
           map lower xb \<in> set (tl a_month) \<and> w1 \<noteq> [] \<and> set w1 \<subseteq> space \<and>
           set xd \<subseteq> insert CHR '' '' digit \<and>
           w2 \<noteq> [] \<and> set w2 \<subseteq> space \<and> set xy \<subseteq> digit \<and> length xy = 4"
proof -
  from assms obtain xb s1 w1 s2 xd s3 w2 s4 xy where
    b: "(xb, s1) \<in> set (re_b s)" and l1: "(w1, s2) \<in> set (re_spaces s1)" and
    d: "(xd, s3) \<in> set (re_d s2)" and l2: "(w2, s4) \<in> set (re_spaces s3)" and
    y: "(xy, r) \<in> set (re_Y s4)" and
    f: "f = f0\<lparr>f_day := py_int xd, f_month := index_of a_month (map lower xb),
                 f_year := Some (py_int xy)\<rparr>"
    by (auto simp: mem_match)
  from re_b_sound [OF b] re_spaces_sound [OF l1] re_d_sound [OF d] re_spaces_sound [OF l2]
    re_Y_sound [OF y] f
  show ?thesis
    by (intro exI [of _ xb] exI [of _ w1] exI [of _ xd] exI [of _ w2] exI [of _ xy]) simp
qed

lemma month_index:
  "name \<in> set (tl a_month) \<Longrightarrow>
   a_month ! index_of a_month name = name \<and>
   1 \<le> index_of a_month name \<and> index_of a_month name \<le> 12"
  by (auto simp: a_month_def)

lemma strptime_Some:
  assumes "strptime row fmt = Some dt"
  shows "\<exists>ts f. pattern fmt = Some ts \<and>
           (f, []) \<in> set (match_tokens ts (\<lparr>f_year = None, f_month = 1, f_day = 1\<rparr>, row)) \<and>
           datetime_date
             (case f_year f of
                None \<Rightarrow> if f_month f = 2 \<and> f_day f = 29 then 1904 else 1900
              | Some y \<Rightarrow> y)
             (f_month f) (f_day f) = Some dt"
  using assms
  by (auto simp: strptime_def split: option.splits list.splits if_splits)

lemma datetime_date_Some:
  "datetime_date y m d = Some dt \<Longrightarrow>
   dt = \<lparr>year = y, month = m, day = d\<rparr> \<and> 1 \<le> y \<and> y \<le> 9999 \<and> 1 \<le> m \<and> m \<le> 12 \<and>
   1 \<le> d \<and> d \<le> days_in_month y m"
  by (auto simp: datetime_date_def split: if_splits)

lemma strptime_valid:
  assumes "strptime row fmt = Some dt"
  shows "1 \<le> year dt \<and> year dt \<le> 9999 \<and> 1 \<le> month dt \<and> month dt \<le> 12 \<and>
         1 \<le> day dt \<and> day dt \<le> days_in_month (year dt) (month dt)"
proof -
  from strptime_Some [OF assms] obtain y m d where "datetime_date y m d = Some dt"
    by blast
  from datetime_date_Some [OF this] show ?thesis by simp
qed

lemma strptime_d_m_Y_sound:
  assumes "strptime row ''%d-%m-%Y'' = Some dt"
  shows "\<exists>xd xm xy. row = xd @ ''-'' @ xm @ ''-'' @ xy \<and>
           day dt = py_int xd \<and> month dt = py_int xm \<and> year dt = py_int xy \<and>
           set xd \<subseteq> insert CHR '' '' digit \<and> set xm \<subseteq> digit \<and>
           set xy \<subseteq> digit \<and> length xy = 4"
proof -
  from strptime_Some [OF assms] obtain f where
    m: "(f, []) \<in> set (match_tokens [Dir_d, Lit CHR ''-'', Dir_m, Lit CHR ''-'', Dir_Y]
          (\<lparr>f_year = None, f_month = 1, f_day = 1\<rparr>, row))" and
    d: "datetime_date
          (case f_year f of
             None \<Rightarrow> if f_month f = 2 \<and> f_day f = 29 then 1904 else 1900
           | Some y \<Rightarrow> y)
          (f_month f) (f_day f) = Some dt"
    by (auto simp only: pattern_d_m_Y option.inject)
  from sound_d_m_Y [OF m] obtain xd xm xy where
    "row = xd @ ''-'' @ xm @ ''-'' @ xy"
    "f = \<lparr>f_year = None, f_month = 1, f_day = 1\<rparr>
           \<lparr>f_day := py_int xd, f_month := py_int xm, f_year := Some (py_int xy)\<rparr>"
    "set xd \<subseteq> insert CHR '' '' digit" "set xm \<subseteq> digit" "set xy \<subseteq> digit" "length xy = 4"
    by auto
  with datetime_date_Some [OF d] show ?thesis
    by (intro exI [of _ xd] exI [of _ xm] exI [of _ xy]) simp
qed

lemma strptime_d_b_Y_sound:
  assumes "strptime row ''%d %b %Y'' = Some dt"
  shows "\<exists>xd w1 xb w2 xy. row = xd @ w1 @ xb @ w2 @ xy \<and>
           day dt = py_int xd \<and> a_month ! month dt = map lower xb \<and> year dt = py_int xy \<and>
           set xd \<subseteq> insert CHR '' '' digit \<and> w1 \<noteq> [] \<and> set w1 \<subseteq> space \<and>
           w2 \<noteq> [] \<and> set w2 \<subseteq> space \<and> set xy \<subseteq> digit \<and> length xy = 4"
proof -
  from strptime_Some [OF assms] obtain f where
    m: "(f, []) \<in> set (match_tokens [Dir_d, Spaces, Dir_b, Spaces, Dir_Y]
          (\<lparr>f_year = None, f_month = 1, f_day = 1\<rparr>, row))" and
    d: "datetime_date
          (case f_year f of
             None \<Rightarrow> if f_month f = 2 \<and> f_day f = 29 then 1904 else 1900
           | Some y \<Rightarrow> y)
          (f_month f) (f_day f) = Some dt"
    by (auto simp only: pattern_d_b_Y option.inject)
  from sound_d_b_Y [OF m] obtain xd w1 xb w2 xy where
    "row = xd @ w1 @ xb @ w2 @ xy"
    "f = \<lparr>f_year = None, f_month = 1, f_day = 1\<rparr>
           \<lparr>f_day := py_int xd, f_month := index_of a_month (map lower xb),
            f_year := Some (py_int xy)\<rparr>"
    "set xd \<subseteq> insert CHR '' '' digit" "w1 \<noteq> []" "set w1 \<subseteq> space"
    "map lower xb \<in> set (tl a_month)"
    "w2 \<noteq> []" "set w2 \<subseteq> space" "set xy \<subseteq> digit" "length xy = 4"
    by auto
  with datetime_date_Some [OF d] month_index [of "map lower xb"] show ?thesis
    by (intro exI [of _ xd] exI [of _ w1] exI [of _ xb] exI [of _ w2] exI [of _ xy]) simp
qed

lemma strptime_b_d_Y_sound:
  assumes "strptime row ''%b %d %Y'' = Some dt"
  shows "\<exists>xb w1 xd w2 xy. row = xb @ w1 @ xd @ w2 @ xy \<and>
           a_month ! month dt = map lower xb \<and> day dt = py_int xd \<and> year dt = py_int xy \<and>
           w1 \<noteq> [] \<and> set w1 \<subseteq> space \<and> set xd \<subseteq> insert CHR '' '' digit \<and>
           w2 \<noteq> [] \<and> set w2 \<subseteq> space \<and> set xy \<subseteq> digit \<and> length xy = 4"
proof -
  from strptime_Some [OF assms] obtain f where
    m: "(f, []) \<in> set (match_tokens [Dir_b, Spaces, Dir_d, Spaces, Dir_Y]
          (\<lparr>f_year = None, f_month = 1, f_day = 1\<rparr>, row))" and
    d: "datetime_date
          (case f_year f of
             None \<Rightarrow> if f_month f = 2 \<and> f_day f = 29 then 1904 else 1900
           | Some y \<Rightarrow> y)
          (f_month f) (f_day f) = Some dt"
    by (auto simp only: pattern_b_d_Y option.inject)
  from sound_b_d_Y [OF m] obtain xb w1 xd w2 xy where
    "row = xb @ w1 @ xd @ w2 @ xy"
    "f = \<lparr>f_year = None, f_month = 1, f_day = 1\<rparr>
           \<lparr>f_day := py_int xd, f_month := index_of a_month (map lower xb),
            f_year := Some (py_int xy)\<rparr>"
    "map lower xb \<in> set (tl a_month)" "w1 \<noteq> []" "set w1 \<subseteq> space"
    "set xd \<subseteq> insert CHR '' '' digit"
    "w2 \<noteq> []" "set w2 \<subseteq> space" "set xy \<subseteq> digit" "length xy = 4"
    by auto
  with datetime_date_Some [OF d] month_index [of "map lower xb"] show ?thesis
    by (intro exI [of _ xb] exI [of _ w1] exI [of _ xd] exI [of _ w2] exI [of _ xy]) simp
qed

lemma digit_table:
  "\<forall>k \<in> set [0 ..< 10]. of_char (''0123456789'' ! k) = (48::nat) + k \<and>
     ''0123456789'' ! k \<in> set ''0123456789''"
  by code_simp

lemma digit_char_facts:
  "of_char (digit_char n) = (48::nat) + n mod 10" "digit_char n \<in> digit"
proof -
  have "n mod 10 \<in> set [0 ..< 10]" by simp
  with digit_table have
    "of_char (''0123456789'' ! (n mod 10)) = (48::nat) + n mod 10 \<and>
     ''0123456789'' ! (n mod 10) \<in> set ''0123456789''"
    by blast
  then show "of_char (digit_char n) = (48::nat) + n mod 10" "digit_char n \<in> digit"
    by (simp_all only: digit_char_def digit_def)
qed

lemma digit_not_space: "c \<in> digit \<Longrightarrow> c \<notin> space"
  by (auto simp: digit_def space_def)

lemma py_int_digits:
  "c \<in> digit \<Longrightarrow>
   py_int (c # cs) = foldl (\<lambda>n c. 10 * n + (of_char c - 48)) 0 (c # cs)"
  by (simp add: py_int_def digit_not_space)

lemma set_decimal: "set (decimal n) \<subseteq> digit"
  by (induction n rule: decimal.induct) (subst decimal.simps, simp add: digit_char_facts)

lemma decimal_not_Nil: "decimal n \<noteq> []"
  by (subst decimal.simps) simp

lemma foldl_decimal:
  "foldl (\<lambda>n c. 10 * n + (of_char c - 48)) 0 (decimal n) = n"
proof (induction n rule: decimal.induct)
  case (1 n)
  show ?case
  proof (cases "n < 10")
    case True
    then show ?thesis
      by (subst decimal.simps) (simp add: digit_char_facts)
  next
    case False
    with "1.IH" show ?thesis
      by (subst decimal.simps) (simp add: digit_char_facts)
  qed
qed

lemma py_int_decimal: "py_int (decimal n) = n"
proof -
  obtain c cs where d: "decimal n = c # cs"
    using decimal_not_Nil [of n] by (cases "decimal n") auto
  with set_decimal [of n] have "c \<in> digit" by auto
  from py_int_digits [OF this, of cs] foldl_decimal [of n] d show ?thesis by simp
qed

lemma py_int_two_digits:
  "n < 100 \<Longrightarrow> py_int [digit_char (n div 10), digit_char n] = n"
  by (simp add: py_int_digits digit_char_facts)

lemma strftime_fields:
  "take 2 (strftime dt) = [digit_char (day dt div 10), digit_char (day dt)]"
  "take 2 (drop 3 (strftime dt)) = [digit_char (month dt div 10), digit_char (month dt)]"
  "drop 6 (strftime dt) = decimal (year dt)"
  "strftime dt ! 2 = CHR ''-''" "strftime dt ! 5 = CHR ''-''"
  by (simp_all add: strftime_def)

lemma days_in_month_le: "days_in_month y m \<le> 31"
  by (simp add: days_in_month_def)

lemma strftime_reads_back:
  assumes "strptime row fmt = Some dt"
  shows "py_int (take 2 (strftime dt)) = day dt \<and>
         py_int (take 2 (drop 3 (strftime dt))) = month dt \<and>
         py_int (drop 6 (strftime dt)) = year dt \<and>
         strftime dt ! 2 = CHR ''-'' \<and> strftime dt ! 5 = CHR ''-'' \<and>
         length (strftime dt) = 6 + length (decimal (year dt))"
proof -
  from strptime_valid [OF assms] days_in_month_le [of "year dt" "month dt"]
  have "day dt < 100" "month dt < 100" by simp_all
  then show ?thesis
    by (simp add: strftime_fields py_int_two_digits py_int_decimal) (simp add: strftime_def)
qed

lemma digit_char_not_zero: "0 < n mod 10 \<Longrightarrow> digit_char n \<noteq> CHR ''0''"
proof
  assume "0 < n mod 10" and "digit_char n = CHR ''0''"
  then have "of_char (digit_char n) = (48::nat)" by simp
  with \<open>0 < n mod 10\<close> show False by (simp add: digit_char_facts)
qed

lemma hd_decimal: "1 \<le> n \<Longrightarrow> hd (decimal n) \<noteq> CHR ''0''"
proof (induction n rule: decimal.induct)
  case (1 n)
  show ?case
  proof (cases "n < 10")
    case True
    with "1.prems" show ?thesis
      by (subst decimal.simps) (simp add: digit_char_not_zero)
  next
    case False
    then have "1 \<le> n div 10" by simp
    with "1.IH" False decimal_not_Nil [of "n div 10"] show ?thesis
      by (subst decimal.simps) simp
  qed
qed

lemma strptime_examples_short_year:
  "strptime ''05-01-0999'' ''%b %d %Y'' = None"
  "strptime ''05-01-0999'' ''%d %b %Y'' = None"
  "strptime ''05-01-0999'' ''%d-%m-%Y'' = Some \<lparr>year = 999, month = 1, day = 5\<rparr>"
  "strftime \<lparr>year = 999, month = 1, day = 5\<rparr> = ''05-01-999''"
  "strftime \<lparr>year = 999, month = Suc 0, day = 5\<rparr> = ''05-01-999''"
  by code_simp+

lemma concat_map_concat:
  "concat (map g (concat (map f xs))) = concat (map (\<lambda>x. concat (map g (f x))) xs)"
  by (induction xs) simp_all

lemma match_tokens_two:
  "match_tokens (t1 # t2 # ts) fs =
     concat (map (match_tokens ts) (concat (map (match_token t2) (match_token t1 fs))))"
proof -
  have "match_tokens (t2 # ts) = (\<lambda>x. concat (map (match_tokens ts) (match_token t2 x)))"
    by (rule ext) simp
  then show ?thesis
    by (simp add: concat_map_concat)
qed

lemma day_then_dash:
  assumes "1 \<le> n" and "n \<le> 31"
  shows "concat (map (match_token (Lit CHR ''-''))
           (match_token Dir_d (f, digit_char (n div 10) # digit_char n # CHR ''-'' # r))) =
         [(f\<lparr>f_day := n\<rparr>, r)]"
proof -
  from assms have "n \<in> {1, 2, 3, 4, 5, 6, 7, 8, 9, 10, 11, 12, 13, 14, 15, 16, 17, 18, 19, 20, 21, 22, 23, 24, 25, 26, 27, 28, 29, 30, 31}"
    unfolding insert_iff empty_iff by arith
  then show ?thesis
    by (elim insertE emptyE)
       (simp_all add: match_token_def re_d_def re_alt_def re_seq_def re_set_def re_word_def
          digit_def digit19_def digit_char_def py_int_def space_def lower_def)
qed

lemma month_then_dash:
  assumes "1 \<le> n" and "n \<le> 12"
  shows "concat (map (match_token (Lit CHR ''-''))
           (match_token Dir_m (f, digit_char (n div 10) # digit_char n # CHR ''-'' # r))) =
         [(f\<lparr>f_month := n\<rparr>, r)]"
proof -
  from assms have "n \<in> {1, 2, 3, 4, 5, 6, 7, 8, 9, 10, 11, 12}"
    unfolding insert_iff empty_iff by arith
  then show ?thesis
    by (elim insertE emptyE)
       (simp_all add: match_token_def re_m_def re_alt_def re_seq_def re_set_def re_word_def
          digit_def digit19_def digit_char_def py_int_def space_def lower_def)
qed

lemma decimal_four:
  assumes "1000 \<le> y" and "y \<le> 9999"
  shows "decimal y =
           [digit_char (y div 1000), digit_char (y div 100), digit_char (y div 10), digit_char y]"
proof -
  from assms have a: "\<not> y < 10" "\<not> y div 10 < 10" "\<not> y div 100 < 10" "y div 1000 < 10"
    by simp_all
  have b: "y div 10 div 10 = y div 100" "y div 100 div 10 = y div 1000"
    by (simp_all add: div_mult2_eq [symmetric])
  have "decimal y = decimal (y div 10) @ [digit_char y]"
    using a(1) by (subst decimal.simps) simp
  also have "decimal (y div 10) = decimal (y div 100) @ [digit_char (y div 10)]"
    using a(2) b(1) by (subst decimal.simps) simp
  also have "decimal (y div 100) = decimal (y div 1000) @ [digit_char (y div 100)]"
    using a(3) b(2) by (subst decimal.simps) simp
  also have "decimal (y div 1000) = [digit_char (y div 1000)]"
    using a(4) by (subst decimal.simps) simp
  finally show ?thesis by simp
qed

lemma year_at_end:
  assumes "1000 \<le> y" and "y \<le> 9999"
  shows "match_token Dir_Y (f, decimal y) = [(f\<lparr>f_year := Some y\<rparr>, [])]"
proof -
  note d = decimal_four [OF assms]
  have "re_Y (decimal y) = [(decimal y, [])]"
    unfolding d by (simp add: re_Y_def re_seq_def re_set_def digit_char_facts)
  then show ?thesis
    by (simp add: match_token_def py_int_decimal)
qed

lemma strptime_strftime:
  assumes "1000 \<le> year dt" and "year dt \<le> 9999" and "1 \<le> month dt" and "month dt \<le> 12"
    and "1 \<le> day dt" and "day dt \<le> days_in_month (year dt) (month dt)"
  shows "strptime (strftime dt) ''%d-%m-%Y'' = Some dt"
proof -
  from assms(6) days_in_month_le [of "year dt" "month dt"] have d31: "day dt \<le> 31"
    by simp
  let ?f0 = "\<lparr>f_year = None, f_month = 1, f_day = 1\<rparr>"
  let ?m = "digit_char (month dt div 10) # digit_char (month dt) # CHR ''-'' # decimal (year dt)"
  have s: "strftime dt = digit_char (day dt div 10) # digit_char (day dt) # CHR ''-'' # ?m"
    by (simp add: strftime_def)
  have "match_tokens [Dir_d, Lit CHR ''-'', Dir_m, Lit CHR ''-'', Dir_Y] (?f0, strftime dt) =
          match_tokens [Dir_m, Lit CHR ''-'', Dir_Y] (?f0\<lparr>f_day := day dt\<rparr>, ?m)"
    unfolding s match_tokens_two day_then_dash [OF assms(5) d31] by simp
  also have "\<dots> = match_tokens [Dir_Y] (?f0\<lparr>f_day := day dt, f_month := month dt\<rparr>,
                                         decimal (year dt))"
    unfolding match_tokens_two month_then_dash [OF assms(3,4)] by simp
  also have "\<dots> = [(\<lparr>f_year = Some (year dt), f_month = month dt, f_day = day dt\<rparr>, [])]"
    by (simp add: year_at_end [OF assms(1,2)])
  finally have m:
    "match_tokens [Dir_d, Lit CHR ''-'', Dir_m, Lit CHR ''-'', Dir_Y] (?f0, strftime dt) =
       [(\<lparr>f_year = Some (year dt), f_month = month dt, f_day = day dt\<rparr>, [])]" .
  show ?thesis
    unfolding strptime_def pattern_d_m_Y option.case m
    using assms by (simp add: datetime_date_def)
qed

lemma short_year_examples:
  "unify_row [] ''05-01-0999'' = [''05-01-999'']"
  "unify_row [] ''05-01-999'' = []"
  by code_simp+

section \<open>Facts about the writer\<close>

lemma zip_longest_Nil: "list_all (\<lambda>xs. xs = []) xss \<Longrightarrow> zip_longest xss = []"
  by (simp add: zip_longest.simps)

lemma zip_longest_Cons:
  "\<not> list_all (\<lambda>xs. xs = []) xss \<Longrightarrow>
   zip_longest xss = map next_or_fill xss # zip_longest (map tl xss)"
  by (subst zip_longest.simps) simp

lemma Max_lengths_tl:
  assumes "\<not> list_all (\<lambda>xs. xs = []) xss"
  shows "Max (insert 0 (length ` set xss)) = Suc (Max (insert 0 (length ` set (map tl xss))))"
proof -
  let ?L = "insert 0 (length ` set xss)"
  have "length ` set (map tl xss) = (\<lambda>n. n - 1) ` length ` set xss"
    by (auto simp: image_iff)
  then have "insert 0 (length ` set (map tl xss)) = (\<lambda>n. n - 1) ` ?L"
    by simp
  moreover have "(Max ?L) - 1 = Max ((\<lambda>n. n - 1) ` ?L)"
    by (rule mono_Max_commute) (auto simp: mono_def)
  moreover from assms obtain xs where "xs \<in> set xss" "xs \<noteq> []"
    by (auto simp: list_all_iff)
  then have "0 < Max ?L"
    by (auto simp: Max_gr_iff)
  ultimately show ?thesis by simp
qed

lemma length_zip_longest:
  "length (zip_longest xss) = Max (insert 0 (length ` set xss))"
proof (induction xss rule: zip_longest.induct)
  case (1 xss)
  show ?case
  proof (cases "list_all (\<lambda>xs. xs = []) xss")
    case True
    then have "length ` set xss \<subseteq> {0}"
      by (auto simp: list_all_iff)
    then have eq: "insert 0 (length ` set xss) = {0}"
      by blast
    show ?thesis
      unfolding eq zip_longest_Nil [OF True] by simp
  next
    case False
    with "1.IH" Max_lengths_tl [OF False] show ?thesis
      by (simp add: zip_longest_Cons)
  qed
qed

lemma next_or_fill_nth: "next_or_fill xs = (if 0 < length xs then Some (xs ! 0) else None)"
  by (cases xs) (simp_all add: next_or_fill_def)

lemma nth_tl_or_fill:
  "(if i < length (tl xs) then Some (tl xs ! i) else None) =
   (if Suc i < length xs then Some (xs ! Suc i) else None)"
  by (cases xs) simp_all

lemma nth_zip_longest:
  "i < length (zip_longest xss) \<Longrightarrow>
   zip_longest xss ! i = map (\<lambda>xs. if i < length xs then Some (xs ! i) else None) xss"
proof (induction xss arbitrary: i rule: zip_longest.induct)
  case (1 xss)
  show ?case
  proof (cases "list_all (\<lambda>xs. xs = []) xss")
    case True
    with "1.prems" show ?thesis by (simp add: zip_longest_Nil)
  next
    case False
    note unfold = zip_longest_Cons [OF False]
    show ?thesis
    proof (cases i)
      case 0
      then show ?thesis by (simp add: unfold next_or_fill_nth)
    next
      case (Suc j)
      with "1.prems" have "j < length (zip_longest (map tl xss))"
        by (simp add: unfold)
      have "map (\<lambda>xs. if j < length xs then Some (xs ! j) else None) (map tl xss) =
            map (\<lambda>xs. if Suc j < length xs then Some (xs ! Suc j) else None) xss"
        by (simp only: map_map comp_def nth_tl_or_fill)
      with "1.IH" [OF False \<open>j < length (zip_longest (map tl xss))\<close>] Suc show ?thesis
        by (simp only: unfold nth_Cons_Suc)
    qed
  qed
qed

lemma values_of_keys:
  assumes "distinct (map fst data_list)"
  shows "map (\<lambda>k. the (map_of data_list k)) (map fst data_list) = map snd data_list"
proof -
  have "the (map_of data_list (fst p)) = snd p" if "p \<in> set data_list" for p
  proof -
    from that have "(fst p, snd p) \<in> set data_list" by simp
    with assms have "map_of data_list (fst p) = Some (snd p)"
      by (simp only: map_of_eq_Some_iff)
    then show ?thesis by simp
  qed
  then show ?thesis by (simp add: comp_def)
qed

section \<open>Facts about the renaming\<close>

lemma map_of_rename_columns_date:
  "map_of (rename_columns columns) ''date'' =
     (if truthy (map_of columns ''date_readable'') then map_of columns ''date_readable''
      else if truthy (map_of columns ''timestamp'') then map_of columns ''timestamp''
      else map_of columns ''date'')"
  by (simp add: rename_columns_def map_of_move_column map_of_combine_euro_cents)

lemma map_of_rename_columns_sources:
  "truthy (map_of columns ''timestamp'') \<Longrightarrow> map_of (rename_columns columns) ''timestamp'' = None"
  "truthy (map_of columns ''date_readable'') \<Longrightarrow> map_of (rename_columns columns) ''date_readable'' = None"
  by (simp_all add: rename_columns_def map_of_move_column map_of_combine_euro_cents)

lemma map_of_rename_columns_amount:
  "truthy (map_of columns ''euro'') \<Longrightarrow> truthy (map_of columns ''cents'') \<Longrightarrow>
   map_of (rename_columns columns) ''amount'' =
     (if truthy (map_of columns ''amounts'') then map_of columns ''amounts''
      else Some (map (\<lambda>(e, c). e @ ''.'' @ c)
                  (zip (the (map_of columns ''euro'')) (the (map_of columns ''cents'')))))"
  by (simp add: rename_columns_def map_of_move_column map_of_combine_euro_cents)

lemma map_of_rename_columns_euro_cents:
  "truthy (map_of columns ''euro'') \<Longrightarrow> truthy (map_of columns ''cents'') \<Longrightarrow>
   map_of (rename_columns columns) ''euro'' = None \<and>
   map_of (rename_columns columns) ''cents'' = None"
  by (simp add: rename_columns_def map_of_move_column map_of_combine_euro_cents)

section \<open>Facts about the date column\<close>

lemma strptime_examples:
  "strptime ''Jan 05 2020'' ''%b %d %Y'' = Some \<lparr>year = 2020, month = 1, day = 5\<rparr>"
  "strptime ''Jan 05 2020'' ''%d %b %Y'' = None"
  "strptime ''Jan 05 2020'' ''%d-%m-%Y'' = None"
  "strptime ''05 Jan 2020'' ''%b %d %Y'' = None"
  "strptime ''05 Jan 2020'' ''%d %b %Y'' = Some \<lparr>year = 2020, month = 1, day = 5\<rparr>"
  "strptime ''05 Jan 2020'' ''%d-%m-%Y'' = None"
  "strptime ''05-01-2020'' ''%b %d %Y'' = None"
  "strptime ''05-01-2020'' ''%d %b %Y'' = None"
  "strptime ''05-01-2020'' ''%d-%m-%Y'' = Some \<lparr>year = 2020, month = 1, day = 5\<rparr>"
  "strptime ''2020/01/05'' ''%b %d %Y'' = None"
  "strptime ''2020/01/05'' ''%d %b %Y'' = None"
  "strptime ''2020/01/05'' ''%d-%m-%Y'' = None"
  by code_simp+

lemma strftime_example:
  "strftime \<lparr>year = 2020, month = 1, day = 5\<rparr> = ''05-01-2020''"
  "strftime \<lparr>year = 2020, month = Suc 0, day = 5\<rparr> = ''05-01-2020''"
  by code_simp+

lemma unify_row_examples:
  "unify_row [] ''Jan 05 2020'' = [''05-01-2020'']"
  "unify_row [] ''05 Jan 2020'' = [''05-01-2020'']"
  "unify_row [] ''05-01-2020'' = [''05-01-2020'']"
  "unify_row [] ''2020/01/05'' = []"
  by code_simp+

lemma unify_dates_example:
  "unify_dates [(''date'', [''Jan 05 2020'', ''05 Jan 2020'', ''05-01-2020'', ''2020/01/05''])] =
     [(''date'', [''05-01-2020'', ''05-01-2020'', ''05-01-2020''])]"
  by code_simp

lemma at_most_one_format:
  "length (filter (\<lambda>fmt. strptime row fmt \<noteq> None) date_formats) \<le> 1"
  using b_d_Y_excludes [of row] d_b_Y_excludes [of row]
  by (auto simp: date_formats_def)

lemma map_of_unify_dates:
  "map_of (unify_dates columns) ''date'' =
     Some (concat (map (unify_row [])
       (case map_of columns ''date'' of None \<Rightarrow> [] | Some rows \<Rightarrow> rows)))"
  by (simp add: unify_dates_def getitem_default_def update_conv' foldl_unify_row
           split: option.splits)

lemma length_unify_row:
  "length (unify_row [] row) =
     (if \<forall>fmt \<in> set date_formats. strptime row fmt = None then 0 else 1)"
  by (auto simp: unify_row_eq find_None_iff find_Some_iff split: option.splits)

lemma length_unify_rows:
  "length (concat (map (unify_row []) rows)) =
     length rows - length (filter (\<lambda>row. \<forall>fmt \<in> set date_formats. strptime row fmt = None) rows)"
proof -
  let ?bad = "\<lambda>row. \<forall>fmt \<in> set date_formats. strptime row fmt = None"
  have "length (concat (map (unify_row []) rows)) = length (filter (\<lambda>row. \<not> ?bad row) rows)"
    by (induction rows) (simp_all add: length_unify_row)
  moreover have "length (filter ?bad rows) + length (filter (\<lambda>row. \<not> ?bad row) rows) = length rows"
    by (rule sum_length_filter_compl)
  ultimately show ?thesis by simp
qed

lemma date_in_parse_columns: "''date'' \<in> set (map fst (parse_columns rows))"
  using date_in_unify_dates [of "rename_columns (read_columns rows)"]
  by (simp add: parse_columns_def)

lemma keys_merge_columns:
  "data_list \<noteq> [] \<Longrightarrow> map fst (merge_columns data_list columns) = map fst data_list"
  by (simp add: merge_columns_def keys_foldl_extend)

lemma hd_generate_csv: "hd (generate_csv data_list) = map fst data_list"
  by (simp add: generate_csv_def Let_def)

lemma parse_columns_no_date_example:
  "parse_columns [[(''amount'', ''10.00'')]] = [(''amount'', [''10.00'']), (''date'', [])]"
  by code_simp

section \<open>The claims\<close>

subsection \<open>C1: merging a file's store into the aggregate\<close>

text \<open>
  Claim C1 says that a key of the file's store that the aggregate lacks is installed
  as a new entry, so that two files with different extra columns give the union of
  their keys. The loop of lines 130 to 132 has a guard, \<^verbatim>\<open>if i in self.data_list\<close>,
  and no other branch: once the aggregate holds the first file's store, a column the
  aggregate lacks is left out. Here the second file's column \<open>b\<close> is lost.
\<close>

theorem merge_new_column_counterexample:
  "merge_columns [(''date'', [''05-01-2020'']), (''a'', [''1''])]
                 [(''date'', [''06-01-2020'']), (''b'', [''2''])] =
     [(''date'', [''05-01-2020'', ''06-01-2020'']), (''a'', [''1''])] \<and>
   map_of (merge_columns [(''date'', [''05-01-2020'']), (''a'', [''1''])]
                         [(''date'', [''06-01-2020'']), (''b'', [''2''])]) ''b'' = None \<and>
   ''b'' \<in> set (map fst [(''date'', [''06-01-2020'']), (''b'', [''2''])]) \<and>
   ''b'' \<notin> set (map fst [(''date'', [''05-01-2020'']), (''a'', [''1''])]) \<and>
   ''b'' \<notin> set (map fst (merge_columns [(''date'', [''05-01-2020'']), (''a'', [''1''])]
                                       [(''date'', [''06-01-2020'']), (''b'', [''2''])]))"
  by (simp add: merge_columns_def)

text \<open>
  Claim C1 as amended: the empty aggregate takes the file's store as a whole; a
  non-empty aggregate keeps its keys and their order, each of its columns gets the
  file's cells of that name appended at the end (nothing when the file has no such
  column), and a column of the file that the aggregate lacks is not installed. So
  after two files the keys are the first file's, and a column is as long as the
  lengths of the files that have it added up.
\<close>

theorem merge_columns_extends_present_keys:
  assumes "distinct (map fst columns)"
  shows "merge_columns [] columns = columns \<and>
         (data_list \<noteq> [] \<longrightarrow>
            map fst (merge_columns data_list columns) = map fst data_list \<and>
            (\<forall>k. map_of (merge_columns data_list columns) k =
                 (case map_of data_list k of
                    None \<Rightarrow> None
                  | Some old \<Rightarrow>
                      Some (old @ (case map_of columns k of None \<Rightarrow> [] | Some new \<Rightarrow> new)))))"
  using assms by (simp add: merge_columns_def keys_foldl_extend map_of_foldl_extend)

theorem merge_columns_extends_present_keys_witness:
  "distinct (map fst [(''date'', [''06-01-2020'']), (''b'', [''2''])]) \<and>
   merge_columns [] [(''date'', [''06-01-2020'']), (''b'', [''2''])] =
     [(''date'', [''06-01-2020'']), (''b'', [''2''])] \<and>
   [(''date'', [''05-01-2020'']), (''a'', [''1''])] \<noteq> [] \<and>
   map fst (merge_columns [(''date'', [''05-01-2020'']), (''a'', [''1''])]
                          [(''date'', [''06-01-2020'']), (''b'', [''2''])]) = [''date'', ''a''] \<and>
   map_of (merge_columns [(''date'', [''05-01-2020'']), (''a'', [''1''])]
                         [(''date'', [''06-01-2020'']), (''b'', [''2''])]) ''date'' =
     Some [''05-01-2020'', ''06-01-2020''] \<and>
   map_of (merge_columns [(''date'', [''05-01-2020'']), (''a'', [''1''])]
                         [(''date'', [''06-01-2020'']), (''b'', [''2''])]) ''a'' = Some [''1''] \<and>
   map_of (merge_columns [(''date'', [''05-01-2020'']), (''a'', [''1''])]
                         [(''date'', [''06-01-2020'']), (''b'', [''2''])]) ''b'' = None"
  using merge_columns_extends_present_keys
    [of "[(''date'', [''06-01-2020'']), (''b'', [''2''])]"
        "[(''date'', [''05-01-2020'']), (''a'', [''1''])]"]
  by simp

subsection \<open>C2: a store with both timestamp and date_readable\<close>

text \<open>
  Claim C2 says that \<open>timestamp\<close> wins and that the rename of
  \<open>date_readable\<close> is an else-branch. Lines 101 and 105 are two \<^verbatim>\<open>if\<close>
  statements, so both renames run and the second overwrites the first.
\<close>

theorem timestamp_and_date_readable_counterexample:
  "rename_columns [(''timestamp'', [''Jan 05 2020'']), (''date_readable'', [''06-01-2020''])] =
     [(''date'', [''06-01-2020''])] \<and>
   map_of (rename_columns [(''timestamp'', [''Jan 05 2020'']), (''date_readable'', [''06-01-2020''])])
     ''date'' \<noteq> Some [''Jan 05 2020'']"
  by code_simp

text \<open>
  Claim C2 as amended: for a store with a non-empty \<open>timestamp\<close> and a non-empty
  \<open>date_readable\<close> column both renames apply, one after the other, and
  \<open>date_readable\<close> wins: the store's \<open>date\<close> column is the original
  \<open>date_readable\<close> column, and neither of the two keys is left.
\<close>

theorem date_readable_wins:
  assumes "truthy (map_of columns ''timestamp'')" and "truthy (map_of columns ''date_readable'')"
  shows "map_of (rename_columns columns) ''date'' = map_of columns ''date_readable'' \<and>
         map_of (rename_columns columns) ''timestamp'' = None \<and>
         map_of (rename_columns columns) ''date_readable'' = None"
  using assms by (simp add: map_of_rename_columns_date map_of_rename_columns_sources)

theorem date_readable_wins_witness:
  "truthy (map_of [(''timestamp'', [''Jan 05 2020'']), (''date_readable'', [''06-01-2020''])] ''timestamp'') \<and>
   truthy (map_of [(''timestamp'', [''Jan 05 2020'']), (''date_readable'', [''06-01-2020''])] ''date_readable'') \<and>
   map_of (rename_columns [(''timestamp'', [''Jan 05 2020'']), (''date_readable'', [''06-01-2020''])]) ''date''
     = Some [''06-01-2020''] \<and>
   map_of (rename_columns [(''timestamp'', [''Jan 05 2020'']), (''date_readable'', [''06-01-2020''])]) ''timestamp''
     = None"
  using date_readable_wins
    [of "[(''timestamp'', [''Jan 05 2020'']), (''date_readable'', [''06-01-2020''])]"]
  by (simp add: truthy_def)

subsection \<open>C3: the first format that parses\<close>

text \<open>
  Claim C3: the three formats are tried on each value of the \<open>date\<close> column in
  the order month-name day year, day month-name year, day-month-year; a value that
  parses under one of them gives exactly one entry, the one of the first format that
  parses it, and never two. The loop has no \<^verbatim>\<open>break\<close> and tries all three; that
  no value gets two entries holds because no value parses under two of the formats.
  The entry is the date in day-month-year: two digits that read as the day, a dash,
  two digits that read as the month, a dash, and the year in decimal with no leading
  zero; and the date is the one the value spells: its day and year are the numbers
  of the value's day and year pieces, its month the number of the month piece or the
  index of the month name.
\<close>

theorem first_parsing_format_wins:
  "date_formats = [''%b %d %Y'', ''%d %b %Y'', ''%d-%m-%Y''] \<and>
   unify_row date_list row =
     date_list @
     (case find (\<lambda>fmt. strptime row fmt \<noteq> None) date_formats of
        None \<Rightarrow> []
      | Some fmt \<Rightarrow> [strftime (the (strptime row fmt))]) \<and>
   length (filter (\<lambda>fmt. strptime row fmt \<noteq> None) date_formats) \<le> 1 \<and>
   map_of (unify_dates columns) ''date'' =
     Some (concat (map (unify_row [])
       (case map_of columns ''date'' of None \<Rightarrow> [] | Some rows \<Rightarrow> rows))) \<and>
   (\<forall>fmt dt. strptime row fmt = Some dt \<longrightarrow>
      1 \<le> year dt \<and> year dt \<le> 9999 \<and> 1 \<le> month dt \<and> month dt \<le> 12 \<and>
      1 \<le> day dt \<and> day dt \<le> days_in_month (year dt) (month dt) \<and>
      strftime dt ! 2 = CHR ''-'' \<and> strftime dt ! 5 = CHR ''-'' \<and>
      length (take 2 (strftime dt)) = 2 \<and> set (take 2 (strftime dt)) \<subseteq> digit \<and>
      py_int (take 2 (strftime dt)) = day dt \<and>
      length (take 2 (drop 3 (strftime dt))) = 2 \<and> set (take 2 (drop 3 (strftime dt))) \<subseteq> digit \<and>
      py_int (take 2 (drop 3 (strftime dt))) = month dt \<and>
      set (drop 6 (strftime dt)) \<subseteq> digit \<and> hd (drop 6 (strftime dt)) \<noteq> CHR ''0'' \<and>
      py_int (drop 6 (strftime dt)) = year dt) \<and>
   (\<forall>dt. strptime row ''%b %d %Y'' = Some dt \<longrightarrow>
      (\<exists>xb w1 xd w2 xy. row = xb @ w1 @ xd @ w2 @ xy \<and>
         a_month ! month dt = map lower xb \<and> day dt = py_int xd \<and> year dt = py_int xy \<and>
         w1 \<noteq> [] \<and> set w1 \<subseteq> space \<and> set xd \<subseteq> insert CHR '' '' digit \<and>
         w2 \<noteq> [] \<and> set w2 \<subseteq> space \<and> set xy \<subseteq> digit \<and> length xy = 4)) \<and>
   (\<forall>dt. strptime row ''%d %b %Y'' = Some dt \<longrightarrow>
      (\<exists>xd w1 xb w2 xy. row = xd @ w1 @ xb @ w2 @ xy \<and>
         day dt = py_int xd \<and> a_month ! month dt = map lower xb \<and> year dt = py_int xy \<and>
         set xd \<subseteq> insert CHR '' '' digit \<and> w1 \<noteq> [] \<and> set w1 \<subseteq> space \<and>
         w2 \<noteq> [] \<and> set w2 \<subseteq> space \<and> set xy \<subseteq> digit \<and> length xy = 4)) \<and>
   (\<forall>dt. strptime row ''%d-%m-%Y'' = Some dt \<longrightarrow>
      (\<exists>xd xm xy. row = xd @ ''-'' @ xm @ ''-'' @ xy \<and>
         day dt = py_int xd \<and> month dt = py_int xm \<and> year dt = py_int xy \<and>
         set xd \<subseteq> insert CHR '' '' digit \<and> set xm \<subseteq> digit \<and>
         set xy \<subseteq> digit \<and> length xy = 4))"
proof -
  have entry: "1 \<le> year dt \<and> year dt \<le> 9999 \<and> 1 \<le> month dt \<and> month dt \<le> 12 \<and>
      1 \<le> day dt \<and> day dt \<le> days_in_month (year dt) (month dt) \<and>
      strftime dt ! 2 = CHR ''-'' \<and> strftime dt ! 5 = CHR ''-'' \<and>
      length (take 2 (strftime dt)) = 2 \<and> set (take 2 (strftime dt)) \<subseteq> digit \<and>
      py_int (take 2 (strftime dt)) = day dt \<and>
      length (take 2 (drop 3 (strftime dt))) = 2 \<and> set (take 2 (drop 3 (strftime dt))) \<subseteq> digit \<and>
      py_int (take 2 (drop 3 (strftime dt))) = month dt \<and>
      set (drop 6 (strftime dt)) \<subseteq> digit \<and> hd (drop 6 (strftime dt)) \<noteq> CHR ''0'' \<and>
      py_int (drop 6 (strftime dt)) = year dt"
    if p: "strptime row fmt = Some dt" for fmt dt
  proof -
    note v = strptime_valid [OF p]
    from v have y: "1 \<le> year dt" by simp
    from strftime_reads_back [OF p] v hd_decimal [OF y] set_decimal [of "year dt"]
    show ?thesis
      by (simp add: strftime_fields digit_char_facts)
  qed
  from unify_row_eq [of date_list row] at_most_one_format [of row] map_of_unify_dates [of columns]
    entry strptime_b_d_Y_sound [of row] strptime_d_b_Y_sound [of row] strptime_d_m_Y_sound [of row]
  show ?thesis
    unfolding date_formats_def by blast
qed

theorem first_parsing_format_wins_witness:
  "strptime ''05-01-0999'' ''%d-%m-%Y'' = Some \<lparr>year = 999, month = 1, day = 5\<rparr> \<and>
   unify_row [''01-01-2019''] ''05-01-0999'' = [''01-01-2019'', ''05-01-999''] \<and>
   py_int (take 2 ''05-01-999'') = 5 \<and> py_int (take 2 (drop 3 ''05-01-999'')) = 1 \<and>
   py_int (drop 6 ''05-01-999'') = 999 \<and>
   (\<exists>xd xm xy. ''05-01-0999'' = xd @ ''-'' @ xm @ ''-'' @ xy \<and>
      5 = py_int xd \<and> 1 = py_int xm \<and> 999 = py_int xy \<and> length xy = 4)"
proof -
  note t = first_parsing_format_wins [of "[''01-01-2019'']" "''05-01-0999''" "[]"]
  note p = strptime_examples_short_year(3)
  from t have u: "unify_row [''01-01-2019''] ''05-01-0999'' =
      [''01-01-2019''] @
      (case find (\<lambda>fmt. strptime ''05-01-0999'' fmt \<noteq> None) date_formats of
         None \<Rightarrow> []
       | Some fmt \<Rightarrow> [strftime (the (strptime ''05-01-0999'' fmt))])"
    by blast
  from t p have e:
    "py_int (take 2 (strftime \<lparr>year = 999, month = 1, day = 5\<rparr>)) = day \<lparr>year = 999, month = 1, day = 5\<rparr>"
    "py_int (take 2 (drop 3 (strftime \<lparr>year = 999, month = 1, day = 5\<rparr>))) =
       month \<lparr>year = 999, month = 1, day = 5\<rparr>"
    "py_int (drop 6 (strftime \<lparr>year = 999, month = 1, day = 5\<rparr>)) =
       year \<lparr>year = 999, month = 1, day = 5\<rparr>"
    by blast+
  from t p have s: "\<exists>xd xm xy. ''05-01-0999'' = xd @ ''-'' @ xm @ ''-'' @ xy \<and>
      day \<lparr>year = 999, month = 1, day = 5\<rparr> = py_int xd \<and>
      month \<lparr>year = 999, month = 1, day = 5\<rparr> = py_int xm \<and>
      year \<lparr>year = 999, month = 1, day = 5\<rparr> = py_int xy \<and>
      set xd \<subseteq> insert CHR '' '' digit \<and> set xm \<subseteq> digit \<and>
      set xy \<subseteq> digit \<and> length xy = 4"
    by blast
  from u have "unify_row [''01-01-2019''] ''05-01-0999'' = [''01-01-2019'', ''05-01-999'']"
    by (simp add: date_formats_def strptime_examples_short_year)
  moreover from e have "py_int (take 2 ''05-01-999'') = 5"
    "py_int (take 2 (drop 3 ''05-01-999'')) = 1" "py_int (drop 6 ''05-01-999'') = 999"
    by (simp_all add: strptime_examples_short_year)
  moreover from s have "\<exists>xd xm xy. ''05-01-0999'' = xd @ ''-'' @ xm @ ''-'' @ xy \<and>
      5 = py_int xd \<and> 1 = py_int xm \<and> 999 = py_int xy \<and> length xy = 4"
    by simp blast
  ultimately show ?thesis using p by simp
qed

subsection \<open>C4: the examples, and the values that are dropped\<close>

text \<open>
  Claim C4: \<open>Jan 05 2020\<close>, \<open>05 Jan 2020\<close> and \<open>05-01-2020\<close> each become
  \<open>05-01-2020\<close>; a value that no format parses, such as \<open>2020/01/05\<close>, adds
  nothing to the new column (no placeholder), so the column is shorter by one for each
  such value.
\<close>

theorem unparseable_dates_are_dropped:
  assumes "map_of columns ''date'' = Some rows"
  shows "unify_row [] ''Jan 05 2020'' = [''05-01-2020''] \<and>
         unify_row [] ''05 Jan 2020'' = [''05-01-2020''] \<and>
         unify_row [] ''05-01-2020'' = [''05-01-2020''] \<and>
         unify_row [] ''2020/01/05'' = [] \<and>
         map_of (unify_dates columns) ''date'' = Some (concat (map (unify_row []) rows)) \<and>
         (\<forall>row. (\<forall>fmt \<in> set date_formats. strptime row fmt = None) \<longrightarrow> unify_row [] row = []) \<and>
         length (the (map_of (unify_dates columns) ''date'')) =
           length rows -
           length (filter (\<lambda>row. \<forall>fmt \<in> set date_formats. strptime row fmt = None) rows)"
proof -
  have "unify_row [] row = []" if "\<forall>fmt \<in> set date_formats. strptime row fmt = None" for row
    using that length_unify_row [of row] by simp
  then show ?thesis
    using assms by (simp add: unify_row_examples map_of_unify_dates length_unify_rows)
qed

theorem unparseable_dates_are_dropped_witness:
  "map_of [(''date'', [''Jan 05 2020'', ''2020/01/05''])] ''date'' =
     Some [''Jan 05 2020'', ''2020/01/05''] \<and>
   map_of (unify_dates [(''date'', [''Jan 05 2020'', ''2020/01/05''])]) ''date'' =
     Some [''05-01-2020''] \<and>
   length (the (map_of (unify_dates [(''date'', [''Jan 05 2020'', ''2020/01/05''])]) ''date'')) =
     length [''Jan 05 2020'', ''2020/01/05''] - 1"
  using unparseable_dates_are_dropped
    [of "[(''date'', [''Jan 05 2020'', ''2020/01/05''])]" "[''Jan 05 2020'', ''2020/01/05'']"]
  by (simp add: unify_row_examples)

subsection \<open>C5: euro and cents\<close>

text \<open>
  Claim C5 says that for every store with non-empty \<open>euro\<close> and \<open>cents\<close>
  columns the renamed store's \<open>amount\<close> column is the pairwise
  \<open>euro.cents\<close>. The last block, lines 113 to 115, moves a non-empty
  \<open>amounts\<close> column to \<open>amount\<close> and overwrites it.
\<close>

theorem euro_cents_amounts_counterexample:
  "rename_columns [(''euro'', [''10'']), (''cents'', [''50'']), (''amounts'', [''7''])] =
     [(''amount'', [''7''])] \<and>
   map_of (rename_columns [(''euro'', [''10'']), (''cents'', [''50'']), (''amounts'', [''7''])]) ''amount''
     \<noteq> Some [''10.50'']"
  by code_simp

text \<open>
  Claim C5 as amended: for every store with non-empty \<open>euro\<close> and \<open>cents\<close>
  columns and no non-empty \<open>amounts\<close> column, the renamed store has an
  \<open>amount\<close> column whose i-th value is the i-th euro value, a decimal point and
  the i-th cents value, as long as the shorter of the two, and has neither an
  \<open>euro\<close> nor a \<open>cents\<close> key.
\<close>

theorem euro_cents_combined:
  assumes "map_of columns ''euro'' = Some euro" and "euro \<noteq> []"
    and "map_of columns ''cents'' = Some cents" and "cents \<noteq> []"
    and "\<not> truthy (map_of columns ''amounts'')"
  shows "map_of (rename_columns columns) ''amount'' =
           Some (map (\<lambda>(e, c). e @ ''.'' @ c) (zip euro cents)) \<and>
         length (the (map_of (rename_columns columns) ''amount'')) =
           min (length euro) (length cents) \<and>
         (\<forall>i < min (length euro) (length cents).
            the (map_of (rename_columns columns) ''amount'') ! i = euro ! i @ ''.'' @ cents ! i) \<and>
         map_of (rename_columns columns) ''euro'' = None \<and>
         map_of (rename_columns columns) ''cents'' = None"
proof -
  from assms have t: "truthy (map_of columns ''euro'')" "truthy (map_of columns ''cents'')"
    by (simp_all add: truthy_def)
  from map_of_rename_columns_amount [OF t] assms
  have "map_of (rename_columns columns) ''amount'' =
          Some (map (\<lambda>(e, c). e @ ''.'' @ c) (zip euro cents))"
    by simp
  with map_of_rename_columns_euro_cents [OF t] show ?thesis
    by simp
qed

theorem euro_cents_combined_witness:
  "map_of [(''euro'', [''10'', ''5'']), (''cents'', [''50'', ''00''])] ''euro'' = Some [''10'', ''5''] \<and>
   map_of [(''euro'', [''10'', ''5'']), (''cents'', [''50'', ''00''])] ''cents'' = Some [''50'', ''00''] \<and>
   \<not> truthy (map_of [(''euro'', [''10'', ''5'']), (''cents'', [''50'', ''00''])] ''amounts'') \<and>
   map_of (rename_columns [(''euro'', [''10'', ''5'']), (''cents'', [''50'', ''00''])]) ''amount'' =
     Some [''10.50'', ''5.00''] \<and>
   map_of (rename_columns [(''euro'', [''10'', ''5'']), (''cents'', [''50'', ''00''])]) ''euro'' = None \<and>
   map_of (rename_columns [(''euro'', [''10'', ''5'']), (''cents'', [''50'', ''00''])]) ''cents'' = None"
  using euro_cents_combined
    [of "[(''euro'', [''10'', ''5'']), (''cents'', [''50'', ''00''])]"
        "[''10'', ''5'']" "[''50'', ''00'']"]
  by (simp add: truthy_def)

subsection \<open>C6: the rows of the unified file\<close>

text \<open>
  Claim C6: the writer emits the aggregate's keys as the header, then the columns
  zipped by position; there are as many data rows as the longest column has cells,
  and a column that is shorter gives the empty field in the rows past its end. The
  keys of an aggregate are distinct, as a dictionary's are, and the parser keeps them
  so.
\<close>

theorem generate_csv_pads_short_columns:
  assumes "distinct (map fst data_list)"
  shows "hd (generate_csv data_list) = map fst data_list \<and>
         tl (generate_csv data_list) = map (map csv_field) (zip_longest (map snd data_list)) \<and>
         length (tl (generate_csv data_list)) = Max (insert 0 (length ` snd ` set data_list)) \<and>
         (\<forall>i < Max (insert 0 (length ` snd ` set data_list)).
            tl (generate_csv data_list) ! i =
              map (\<lambda>(k, column). if i < length column then column ! i else '''') data_list)"
proof -
  let ?rows = "zip_longest (map snd data_list)"
  have gen: "generate_csv data_list = map fst data_list # map (map csv_field) ?rows"
    unfolding generate_csv_def Let_def values_of_keys [OF assms] by (rule refl)
  have len: "length ?rows = Max (insert 0 (length ` snd ` set data_list))"
    by (simp add: length_zip_longest image_image)
  have "map (map csv_field) ?rows ! i =
          map (\<lambda>(k, column). if i < length column then column ! i else '''') data_list"
    if "i < length ?rows" for i
    using that
    by (simp add: nth_zip_longest comp_def csv_field_def case_prod_unfold)
  with len show ?thesis
    by (simp add: gen)
qed

theorem generate_csv_pads_short_columns_witness:
  "distinct (map fst [(''date'', [''05-01-2020'', ''06-01-2020'']), (''amount'', [''10.00''])]) \<and>
   hd (generate_csv [(''date'', [''05-01-2020'', ''06-01-2020'']), (''amount'', [''10.00''])]) =
     [''date'', ''amount''] \<and>
   length (tl (generate_csv [(''date'', [''05-01-2020'', ''06-01-2020'']), (''amount'', [''10.00''])])) = 2 \<and>
   tl (generate_csv [(''date'', [''05-01-2020'', ''06-01-2020'']), (''amount'', [''10.00''])]) ! 0 =
     [''05-01-2020'', ''10.00''] \<and>
   tl (generate_csv [(''date'', [''05-01-2020'', ''06-01-2020'']), (''amount'', [''10.00''])]) ! 1 =
     [''06-01-2020'', '''']"
proof -
  let ?dl = "[(''date'', [''05-01-2020'', ''06-01-2020'']), (''amount'', [''10.00''])]"
  have d: "distinct (map fst ?dl)" by simp
  have m: "Max (insert 0 (length ` snd ` set ?dl)) = 2" by simp
  note g = generate_csv_pads_short_columns [OF d]
  note h = g [THEN conjunct1]
  note l = g [THEN conjunct2, THEN conjunct2, THEN conjunct1, unfolded m]
  note n = g [THEN conjunct2, THEN conjunct2, THEN conjunct2, unfolded m, rule_format]
  have "tl (generate_csv ?dl) ! 0 = [''05-01-2020'', ''10.00'']"
    using n [of 0] by simp
  moreover have "tl (generate_csv ?dl) ! 1 = [''06-01-2020'', '''']"
    using n [of 1] by simp
  ultimately show ?thesis
    using d h l by simp
qed

subsection \<open>C7: a suffix that is not handled\<close>

text \<open>
  Claim C7: for a file name that ends in none of \<open>.csv\<close>, \<open>.xml\<close> and
  \<open>.json\<close> the dispatch raises its error instead of parsing the file: the
  aggregate is what it was, whatever the file holds, and the worker that took the
  file ends there, with the rest of the queue left.
\<close>

theorem unsupported_suffix_raises:
  assumes "\<not> endswith filename ''.csv''" and "\<not> endswith filename ''.xml''"
    and "\<not> endswith filename ''.json''"
  shows "file_parser_factory_method fs filename data_list = (Raised CannotParse, data_list) \<and>
         process_queued_files fs (filename # file_queue) data_list =
           (Raised CannotParse, file_queue, data_list)"
  using assms by (simp add: file_parser_factory_method_def)

theorem unsupported_suffix_raises_witness:
  "\<not> endswith ''a.txt'' ''.csv'' \<and> \<not> endswith ''a.txt'' ''.xml'' \<and>
   \<not> endswith ''a.txt'' ''.json'' \<and>
   file_parser_factory_method (\<lambda>name. Some [[(''date'', ''05-01-2020'')]]) ''a.txt''
     [(''date'', [''06-01-2020''])] = (Raised CannotParse, [(''date'', [''06-01-2020''])]) \<and>
   process_queued_files (\<lambda>name. Some [[(''date'', ''05-01-2020'')]]) [''a.txt'', ''b.csv'']
     [(''date'', [''06-01-2020''])] = (Raised CannotParse, [''b.csv''], [(''date'', [''06-01-2020''])])"
  using unsupported_suffix_raises
    [of "''a.txt''" "\<lambda>name. Some [[(''date'', ''05-01-2020'')]]" "[(''date'', [''06-01-2020''])]"
        "[''b.csv'']"]
  by (simp add: endswith_def)

subsection \<open>C9: the date column is always there\<close>

text \<open>
  Claim C9: the store of a file that was read always has a \<open>date\<close> key, also
  when the file has no date column at all (the key is then created with the empty
  list); so the aggregate has it from the first merge on, and so has the header.
\<close>

theorem date_column_always_present:
  assumes "fs filename = Some rows" and "data_list = [] \<or> ''date'' \<in> set (map fst data_list)"
  shows "''date'' \<in> set (map fst (parse_columns rows)) \<and>
         fst (csv_parser fs filename data_list) = Returned \<and>
         ''date'' \<in> set (map fst (snd (csv_parser fs filename data_list))) \<and>
         ''date'' \<in> set (hd (generate_csv (snd (csv_parser fs filename data_list))))"
proof -
  have "''date'' \<in> set (map fst (merge_columns data_list (parse_columns rows)))"
  proof (cases "data_list = []")
    case True
    then show ?thesis
      using date_in_parse_columns [of rows] by (simp add: merge_columns_def)
  next
    case False
    with assms(2) show ?thesis
      by (simp only: keys_merge_columns [OF False]) simp
  qed
  with assms(1) date_in_parse_columns [of rows] show ?thesis
    by (simp add: csv_parser_def hd_generate_csv)
qed

theorem date_column_always_present_witness:
  "(\<lambda>name. Some [[(''amount'', ''10.00'')]]) ''a.csv'' = Some [[(''amount'', ''10.00'')]] \<and>
   ''date'' \<in> set (map fst (parse_columns [[(''amount'', ''10.00'')]])) \<and>
   csv_parser (\<lambda>name. Some [[(''amount'', ''10.00'')]]) ''a.csv'' [] =
     (Returned, [(''amount'', [''10.00'']), (''date'', [])]) \<and>
   ''date'' \<in> set (hd (generate_csv
      (snd (csv_parser (\<lambda>name. Some [[(''amount'', ''10.00'')]]) ''a.csv'' []))))"
  using date_column_always_present
    [of "\<lambda>name. Some [[(''amount'', ''10.00'')]]" "''a.csv''" "[[(''amount'', ''10.00'')]]" "[]"]
  by (simp add: csv_parser_def merge_columns_def parse_columns_no_date_example)

subsection \<open>C10: xml and json files\<close>

text \<open>
  Claim C10: for a file name that ends in \<open>.xml\<close> or \<open>.json\<close> the
  dispatch returns without an error and leaves the aggregate as it is; the file is
  not read (the result is the same whatever the files hold, also for a file that
  cannot be opened), and the worker goes on with the queue.
\<close>

theorem xml_json_is_no_op:
  assumes "endswith filename ''.xml'' \<or> endswith filename ''.json''"
  shows "file_parser_factory_method fs filename data_list = (Returned, data_list) \<and>
         process_queued_files fs (filename # file_queue) data_list =
           process_queued_files fs file_queue data_list"
  using assms endswith_csv_xml [of filename] endswith_csv_json [of filename]
  by (auto simp: file_parser_factory_method_def)

theorem xml_json_is_no_op_witness:
  "(endswith ''a.xml'' ''.xml'' \<and>
    file_parser_factory_method (\<lambda>name. None) ''a.xml'' [(''date'', [''06-01-2020''])] =
      (Returned, [(''date'', [''06-01-2020''])])) \<and>
   (endswith ''b.json'' ''.json'' \<and>
    file_parser_factory_method (\<lambda>name. None) ''b.json'' [(''date'', [''06-01-2020''])] =
      (Returned, [(''date'', [''06-01-2020''])]))"
  using xml_json_is_no_op [of "''a.xml''" "\<lambda>name. None" "[(''date'', [''06-01-2020''])]" "[]"]
    xml_json_is_no_op [of "''b.json''" "\<lambda>name. None" "[(''date'', [''06-01-2020''])]" "[]"]
  by (simp add: endswith_def)

subsection \<open>Two files, end to end\<close>

text \<open>
  One worker takes \<open>a.csv\<close> (columns \<open>date\<close>, \<open>amount\<close>) and then
  \<open>b.csv\<close> (columns \<open>date\<close>, \<open>amounts\<close>) from the queue, starting from the
  empty aggregate: the unified file has the header \<open>date\<close>, \<open>amount\<close> and one
  row per file.
\<close>

theorem two_files_end_to_end:
  "process_queued_files
     (\<lambda>name. if name = ''a.csv'' then Some [[(''date'', ''Jan 05 2020''), (''amount'', ''10.00'')]]
             else if name = ''b.csv'' then Some [[(''date'', ''06-01-2020''), (''amounts'', ''20.00'')]]
             else None)
     [''a.csv'', ''b.csv''] [] =
     (Returned, [], [(''date'', [''05-01-2020'', ''06-01-2020'']), (''amount'', [''10.00'', ''20.00''])]) \<and>
   generate_csv [(''date'', [''05-01-2020'', ''06-01-2020'']), (''amount'', [''10.00'', ''20.00''])] =
     [[''date'', ''amount''], [''05-01-2020'', ''10.00''], [''06-01-2020'', ''20.00'']]"
  by code_simp

subsection \<open>An entry read again\<close>

text \<open>
  The entry of a date from the year 1000 on has ten characters and is a value of the
  third format that parses to the same date, so that unifying it again returns it.
  The entry of an earlier year is shorter and no format parses it: it would be
  dropped.
\<close>

theorem canonical_entry_is_a_fixed_point:
  assumes "strptime row fmt = Some dt" and "1000 \<le> year dt"
  shows "strptime (strftime dt) ''%d-%m-%Y'' = Some dt \<and>
         unify_row [] (strftime dt) = [strftime dt] \<and>
         length (strftime dt) = 10"
proof -
  note v = strptime_valid [OF assms(1)]
  from v assms(2) have p: "strptime (strftime dt) ''%d-%m-%Y'' = Some dt"
    by (intro strptime_strftime) simp_all
  then have n: "strptime (strftime dt) ''%d-%m-%Y'' \<noteq> None" by simp
  from b_d_Y_excludes [of "strftime dt"] d_b_Y_excludes [of "strftime dt"] n
  have "strptime (strftime dt) ''%b %d %Y'' = None" "strptime (strftime dt) ''%d %b %Y'' = None"
    by blast+
  with p have "unify_row [] (strftime dt) = [strftime dt]"
    by (simp add: unify_row_def date_formats_def try_format_def)
  moreover from v assms(2) have "length (strftime dt) = 10"
    by (simp add: strftime_def decimal_four)
  ultimately show ?thesis using p by simp
qed

theorem canonical_entry_is_a_fixed_point_witness:
  "strptime ''Jan 05 2020'' ''%b %d %Y'' = Some \<lparr>year = 2020, month = 1, day = 5\<rparr> \<and>
   unify_row [] ''05-01-2020'' = [''05-01-2020''] \<and>
   unify_row [] ''05-01-0999'' = [''05-01-999''] \<and>
   unify_row [] ''05-01-999'' = []"
  using canonical_entry_is_a_fixed_point
    [of "''Jan 05 2020''" "''%b %d %Y''" "\<lparr>year = 2020, month = 1, day = 5\<rparr>"]
  by (simp add: strptime_examples strftime_example short_year_examples)

end
